theory Spec2Isabelle
  imports Complex_Main "HOL-Library.Sublist"
begin

section \<open>Data model of the combined graph editor\<close>

text \<open>
  The editor keeps its whole state in module-level variables of one Svelte component.
  Numbers of the source are IEEE doubles; coordinates are modelled as \<open>real\<close>, the two id
  counters as \<open>nat\<close> (they start at 0 and are only incremented). Strings are \<open>string\<close>.
  Calls into d3 and the DOM that do not write the variables below (\<open>render\<close>,
  \<open>restartSimulation\<close>, \<open>updateColorPaletteSelection\<close>) have no counterpart; what the
  DOM supplies to a handler (text metrics, the clock, the element under the pointer) is a
  parameter of the handler.
\<close>

datatype PropertyType = string_t | number_t | url_t | datetime_t | daterange_t

datatype PropertyData = Text string | Number real | Range string string

record PropertyValue =
  pv_type :: PropertyType
  pv_value :: PropertyData

type_synonym Properties = "(string \<times> PropertyValue) list"

record Node =
  node_id :: string
  node_x :: real
  node_y :: real
  node_radius :: real
  node_label :: string
  node_color :: string
  node_properties :: Properties
  node_fx :: "real option"
  node_fy :: "real option"
  node_vx :: "real option"
  node_vy :: "real option"

text \<open>An edge end is \<open>string | Node\<close> in the source: an id, or a node object.\<close>

datatype Endpoint = EndId string | EndNode Node

record Edge =
  edge_id :: string
  edge_source :: Endpoint
  edge_target :: Endpoint
  edge_name :: string
  edge_properties :: Properties

text \<open>The popover shows one selected item; only its kind and id are ever compared.\<close>

datatype PopoverItem = PopNode string | PopEdge string

text \<open>
  A node object that d3-drag hands to a handler, the datum \<open>d\<close>. d3-drag passes the object
  it found at the start of the gesture to every handler of that gesture. The object is
  either an element of the array \<open>nodes\<close>, given by its index (then a write to it is a
  write to that element), or it is no longer in the array, because the array element was
  replaced by a copy; then it is given by its own field values.
\<close>

datatype Datum = InArray nat | Detached Node

text \<open>
  \<open>Set<string>\<close> is a duplicate-free list in insertion order, \<open>Map<string, {dx, dy}>\<close>
  an association list.
\<close>

record State =
  nodes :: "Node list"
  edges :: "Edge list"
  nodeCounter :: nat
  edgeCounter :: nat
  mode :: string
  selectedNodeIds :: "string list"
  selectedEdgeIds :: "string list"
  isSelecting :: bool
  selectionStart :: "real \<times> real"
  isDraggingForEdge :: bool
  dragSourceNode :: "Datum option"
  justCompletedEdgeCreation :: bool
  isDraggingNode :: bool
  dragStartPosition :: "(real \<times> real) option"
  draggedNode :: "Datum option"
  dragOffsets :: "(string \<times> real \<times> real) list"
  popover :: "PopoverItem option"
  showCreateNodeDialog :: bool
  pendingNodePosition :: "(real \<times> real) option"
  createNodeName :: string
  showCreateEdgeDialog :: bool
  pendingEdge :: "(Node \<times> Node) option"
  createEdgeName :: string
  lastEdgeName :: string
  showCreateEdgeAndNodeDialog :: bool
  pendingEdgeSourceNode :: "Node option"
  pendingEdgeStart :: "(real \<times> real) option"
  pendingEdgeEnd :: "(real \<times> real \<times> string option) option"
  newEdgeName :: string
  newNodeName :: string
  zoom_k :: real
  zoom_x :: real
  zoom_y :: real


definition repelDistance :: real where
  "repelDistance = 80"

definition repelStrength :: real where
  "repelStrength = 3 / 10"

definition maxRecursionDepth :: nat where
  "maxRecursionDepth = 100"

definition canvasWidth :: real where
  "canvasWidth = 1700"

definition canvasHeight :: real where
  "canvasHeight = 700"

text \<open>The values the component's variables are declared with.\<close>

definition initialState :: State where
  "initialState = \<lparr>
     nodes = [], edges = [], nodeCounter = 0, edgeCounter = 0, mode = ''force'',
     selectedNodeIds = [], selectedEdgeIds = [],
     isSelecting = False, selectionStart = (0, 0),
     isDraggingForEdge = False, dragSourceNode = None, justCompletedEdgeCreation = False,
     isDraggingNode = False, dragStartPosition = None, draggedNode = None, dragOffsets = [],
     popover = None,
     showCreateNodeDialog = False, pendingNodePosition = None, createNodeName = [],
     showCreateEdgeDialog = False, pendingEdge = None, createEdgeName = [], lastEdgeName = [],
     showCreateEdgeAndNodeDialog = False, pendingEdgeSourceNode = None,
     pendingEdgeStart = None, pendingEdgeEnd = None, newEdgeName = [], newNodeName = [],
     zoom_k = 1, zoom_x = 0, zoom_y = 0 \<rparr>"

text \<open>The structural graph data: what the claims call "the graph".\<close>

definition graph :: "State \<Rightarrow> Node list \<times> Edge list \<times> nat \<times> nat" where
  "graph s = (nodes s, edges s, nodeCounter s, edgeCounter s)"


section \<open>Strings: template literals and trim\<close>

text \<open>The decimal numeral that a template literal \<open>`${n}`\<close> prints for a counter.\<close>

fun string_of_nat :: "nat \<Rightarrow> string" where
  "string_of_nat n =
     (if n < 10 then [''0123456789'' ! n]
      else string_of_nat (n div 10) @ [''0123456789'' ! (n mod 10)])"

declare string_of_nat.simps [simp del]

text \<open>
  \<open>String.prototype.trim\<close> strips white space and line terminators from both ends.
  Within one-byte characters these are TAB, LF, VT, FF, CR, SPACE and NBSP.
\<close>

definition js_whitespace :: "char \<Rightarrow> bool" where
  "js_whitespace c \<longleftrightarrow>
     c \<in> set [CHR 0x09, CHR 0x0A, CHR 0x0B, CHR 0x0C, CHR 0x0D, CHR 0x20, CHR 0xA0]"

definition trim :: "string \<Rightarrow> string" where
  "trim str = rev (dropWhile js_whitespace (rev (dropWhile js_whitespace str)))"

text \<open>A name that is empty or consists of white space only.\<close>

definition blank :: "string \<Rightarrow> bool" where
  "blank str \<longleftrightarrow> list_all js_whitespace str"


section \<open>Creating nodes and edges\<close>

definition timestamps :: "string \<Rightarrow> Properties" where
  "timestamps now =
     [(''createdAt'', \<lparr>pv_type = datetime_t, pv_value = Text now\<rparr>),
      (''editedAt'', \<lparr>pv_type = datetime_t, pv_value = Text now\<rparr>)]"

text \<open>
  \<open>addNode(x, y, label?)\<close>. \<open>calculateNodeRadius\<close> measures the rendered text and is the
  parameter \<open>radius_of\<close>; \<open>now\<close> is \<open>new Date().toISOString()\<close>. A missing or empty label
  is falsy and replaced by the default label. The id is built with \<open>++nodeCounter\<close>.
\<close>

definition newNode :: "(string \<Rightarrow> real) \<Rightarrow> string \<Rightarrow> nat \<Rightarrow> real \<Rightarrow> real \<Rightarrow> string \<Rightarrow> Node" where
  "newNode radius_of now counter px py lbl =
     \<lparr> node_id = ''node-'' @ string_of_nat counter, node_x = px, node_y = py,
       node_radius = radius_of lbl, node_label = lbl, node_color = ''#4285f4'',
       node_properties = timestamps now,
       node_fx = None, node_fy = None, node_vx = None, node_vy = None \<rparr>"

definition addNode ::
  "(string \<Rightarrow> real) \<Rightarrow> string \<Rightarrow> real \<Rightarrow> real \<Rightarrow> string option \<Rightarrow> State \<Rightarrow> Node \<times> State" where
  "addNode radius_of now px py lbl s =
     (let nodeLabel = (case lbl of
                         None \<Rightarrow> ''Node '' @ string_of_nat (nodeCounter s + 1)
                       | Some l \<Rightarrow> if l = [] then ''Node '' @ string_of_nat (nodeCounter s + 1) else l);
          counter = nodeCounter s + 1;
          n = newNode radius_of now counter px py nodeLabel
      in (n, s\<lparr>nodeCounter := counter, nodes := nodes s @ [n]\<rparr>))"

definition closeCreateNodeDialog :: "State \<Rightarrow> State" where
  "closeCreateNodeDialog s =
     s\<lparr>showCreateNodeDialog := False, pendingNodePosition := None, createNodeName := []\<rparr>"

definition createNodeFromDialog :: "(string \<Rightarrow> real) \<Rightarrow> string \<Rightarrow> State \<Rightarrow> State" where
  "createNodeFromDialog radius_of now s =
     closeCreateNodeDialog
       (case pendingNodePosition s of
          None \<Rightarrow> s
        | Some (px, py) \<Rightarrow>
            if trim (createNodeName s) \<noteq> []
            then snd (addNode radius_of now px py (Some (trim (createNodeName s))) s)
            else s)"

text \<open>\<open>createEdge(source, target)\<close> only opens the dialog for the two node objects.\<close>

definition createEdge :: "Node \<Rightarrow> Node \<Rightarrow> State \<Rightarrow> State" where
  "createEdge src tgt s =
     s\<lparr>pendingEdge := Some (src, tgt), createEdgeName := lastEdgeName s,
       showCreateEdgeDialog := True\<rparr>"

definition closeCreateEdgeDialog :: "State \<Rightarrow> State" where
  "closeCreateEdgeDialog s =
     s\<lparr>showCreateEdgeDialog := False, pendingEdge := None, createEdgeName := []\<rparr>"

definition newEdge :: "string \<Rightarrow> nat \<Rightarrow> string \<Rightarrow> string \<Rightarrow> string \<Rightarrow> Edge" where
  "newEdge now counter src tgt nm =
     \<lparr> edge_id = ''edge-'' @ string_of_nat counter,
       edge_source = EndId src, edge_target = EndId tgt,
       edge_name = nm, edge_properties = timestamps now \<rparr>"

text \<open>\<open>confirmCreateEdge\<close>: the id is built with \<open>++edgeCounter\<close>, the name is trimmed.\<close>

definition confirmCreateEdge :: "string \<Rightarrow> State \<Rightarrow> State" where
  "confirmCreateEdge now s =
     closeCreateEdgeDialog
       (case pendingEdge s of
          None \<Rightarrow> s
        | Some (src, tgt) \<Rightarrow>
            if trim (createEdgeName s) \<noteq> []
            then s\<lparr>lastEdgeName := trim (createEdgeName s),
                   edgeCounter := edgeCounter s + 1,
                   edges := edges s @
                     [newEdge now (edgeCounter s + 1) (node_id src) (node_id tgt)
                        (trim (createEdgeName s))]\<rparr>
            else s)"

text \<open>
  \<open>createEdgeFromDialog\<close>, the handler of the dialog's OK button and Enter key: the id is
  built with \<open>edgeCounter++\<close> (the value before the increment), the name is not trimmed.
\<close>

definition createEdgeFromDialog :: "string \<Rightarrow> State \<Rightarrow> State" where
  "createEdgeFromDialog now s =
     (if trim (createEdgeName s) = [] then closeCreateEdgeDialog s
      else case pendingEdge s of
          None \<Rightarrow> closeCreateEdgeDialog s
        | Some (src, tgt) \<Rightarrow>
            closeCreateEdgeDialog
              (s\<lparr>edgeCounter := edgeCounter s + 1,
                 edges := edges s @
                   [newEdge now (edgeCounter s) (node_id src) (node_id tgt)
                      (createEdgeName s)]\<rparr>))"



definition closeCreateEdgeAndNodeDialog :: "State \<Rightarrow> State" where
  "closeCreateEdgeAndNodeDialog s =
     s\<lparr>showCreateEdgeAndNodeDialog := False, pendingEdgeSourceNode := None,
       pendingEdgeStart := None, pendingEdgeEnd := None, newEdgeName := [], newNodeName := []\<rparr>"

definition createNodeAndEdge ::
  "(string \<Rightarrow> real) \<Rightarrow> string \<Rightarrow> real \<Rightarrow> real \<Rightarrow> (string \<Rightarrow> string \<times> string) \<Rightarrow> State \<Rightarrow> State" where
  "createNodeAndEdge radius_of now px py ends s =
     (let n = newNode radius_of now (nodeCounter s + 1) px py (trim (newNodeName s));
          e = newEdge now (edgeCounter s + 1) (fst (ends (node_id n))) (snd (ends (node_id n)))
                (trim (newEdgeName s))
      in s\<lparr>lastEdgeName := trim (newEdgeName s),
           nodeCounter := nodeCounter s + 1, nodes := nodes s @ [n],
           edgeCounter := edgeCounter s + 1, edges := edges s @ [e]\<rparr>)"

definition confirmCreateEdgeAndNode :: "(string \<Rightarrow> real) \<Rightarrow> string \<Rightarrow> State \<Rightarrow> State" where
  "confirmCreateEdgeAndNode radius_of now s =
     (let named = trim (newEdgeName s) \<noteq> [] \<and> trim (newNodeName s) \<noteq> []
      in case (pendingEdgeStart s, pendingEdgeEnd s) of
           (Some (sx, sy), Some (ex, ey, Some targetId)) \<Rightarrow>
             if named \<and> targetId \<noteq> []
             then closeCreateEdgeAndNodeDialog
                    (createNodeAndEdge radius_of now sx sy (\<lambda>new_id. (new_id, targetId)) s)
             else (case pendingEdgeSourceNode s of
                     Some src \<Rightarrow>
                       if named
                       then closeCreateEdgeAndNodeDialog
                              (createNodeAndEdge radius_of now ex ey (\<lambda>new_id. (node_id src, new_id)) s)
                       else closeCreateEdgeAndNodeDialog s
                   | None \<Rightarrow> closeCreateEdgeAndNodeDialog s)
         | (_, Some (ex, ey, _)) \<Rightarrow>
             (case pendingEdgeSourceNode s of
                Some src \<Rightarrow>
                  if named
                  then closeCreateEdgeAndNodeDialog
                         (createNodeAndEdge radius_of now ex ey (\<lambda>new_id. (node_id src, new_id)) s)
                  else closeCreateEdgeAndNodeDialog s
              | None \<Rightarrow> closeCreateEdgeAndNodeDialog s)
         | _ \<Rightarrow> closeCreateEdgeAndNodeDialog s)"


section \<open>Selection\<close>

definition set_add :: "string \<Rightarrow> string list \<Rightarrow> string list" where
  "set_add a xs = (if a \<in> set xs then xs else xs @ [a])"

definition set_delete :: "string \<Rightarrow> string list \<Rightarrow> string list" where
  "set_delete a xs = removeAll a xs"

definition hidePopover :: "State \<Rightarrow> State" where
  "hidePopover s = s\<lparr>popover := None\<rparr>"

text \<open>
  \<open>updatePopover\<close> shows the popover only when exactly one item is selected and that item is
  found; when the single selected id is not found the popover is left as it is.
\<close>

definition updatePopover :: "State \<Rightarrow> State" where
  "updatePopover s =
     (if length (selectedNodeIds s) = 1 \<and> length (selectedEdgeIds s) = 0
      then (case find (\<lambda>n. node_id n = hd (selectedNodeIds s)) (nodes s) of
              Some n \<Rightarrow> s\<lparr>popover := Some (PopNode (node_id n))\<rparr>
            | None \<Rightarrow> s)
      else if length (selectedEdgeIds s) = 1 \<and> length (selectedNodeIds s) = 0
      then (case find (\<lambda>e. edge_id e = hd (selectedEdgeIds s)) (edges s) of
              Some e \<Rightarrow> s\<lparr>popover := Some (PopEdge (edge_id e))\<rparr>
            | None \<Rightarrow> s)
      else hidePopover s)"

definition selectNode :: "Node \<Rightarrow> bool \<Rightarrow> State \<Rightarrow> State" where
  "selectNode n shiftKey s =
     updatePopover
       (if shiftKey
        then (if node_id n \<in> set (selectedNodeIds s)
              then s\<lparr>selectedNodeIds := set_delete (node_id n) (selectedNodeIds s)\<rparr>
              else s\<lparr>selectedNodeIds := set_add (node_id n) (selectedNodeIds s)\<rparr>)
        else s\<lparr>selectedNodeIds := [node_id n], selectedEdgeIds := []\<rparr>)"

definition selectEdge :: "Edge \<Rightarrow> bool \<Rightarrow> State \<Rightarrow> State" where
  "selectEdge e shiftKey s =
     updatePopover
       (if shiftKey
        then (if edge_id e \<in> set (selectedEdgeIds s)
              then s\<lparr>selectedEdgeIds := set_delete (edge_id e) (selectedEdgeIds s)\<rparr>
              else s\<lparr>selectedEdgeIds := set_add (edge_id e) (selectedEdgeIds s)\<rparr>)
        else s\<lparr>selectedNodeIds := [], selectedEdgeIds := [edge_id e]\<rparr>)"

definition clearSelection :: "State \<Rightarrow> State" where
  "clearSelection s = hidePopover (s\<lparr>selectedNodeIds := [], selectedEdgeIds := []\<rparr>)"


section \<open>Deleting\<close>

text \<open>\<open>typeof edge.source === 'string' ? edge.source : edge.source.id\<close>\<close>

definition endpoint_id :: "Endpoint \<Rightarrow> string" where
  "endpoint_id e = (case e of EndId i \<Rightarrow> i | EndNode n \<Rightarrow> node_id n)"

text \<open>
  What a call evaluates to. \<open>deleteNode\<close> has no \<open>return\<close> statement, so its call
  evaluates to \<open>undefined\<close>.
\<close>

datatype 'a Returned = Undefined | Value 'a

definition deleteNode :: "Node \<Rightarrow> State \<Rightarrow> string list Returned \<times> State" where
  "deleteNode nodeToDelete s =
     (let s1 = (if popover s = Some (PopNode (node_id nodeToDelete)) then hidePopover s else s)
      in (Undefined,
          s1\<lparr>edges := filter (\<lambda>e. endpoint_id (edge_source e) \<noteq> node_id nodeToDelete
                                  \<and> endpoint_id (edge_target e) \<noteq> node_id nodeToDelete) (edges s1),
             nodes := filter (\<lambda>n. node_id n \<noteq> node_id nodeToDelete) (nodes s1)\<rparr>))"

definition deleteEdge :: "Edge \<Rightarrow> State \<Rightarrow> State" where
  "deleteEdge edgeToDelete s =
     (let s1 = (if popover s = Some (PopEdge (edge_id edgeToDelete)) then hidePopover s else s)
      in s1\<lparr>edges := filter (\<lambda>e. edge_id e \<noteq> edge_id edgeToDelete) (edges s1)\<rparr>)"

text \<open>
  \<open>handleKeyDown\<close>: \<open>in_input\<close> says that the focus is in an input, a textarea or an
  editable element; \<open>key\<close> is \<open>event.key\<close>.
\<close>

definition deleteSelection :: "State \<Rightarrow> State" where
  "deleteSelection s =
     (let s1 = (if length (selectedEdgeIds s) > 0
                then s\<lparr>edges := filter (\<lambda>e. edge_id e \<notin> set (selectedEdgeIds s)) (edges s),
                       selectedEdgeIds := []\<rparr>
                else s);
          nodeIdsToDelete = selectedNodeIds s1;
          s2 = (if length (selectedNodeIds s1) > 0
                then s1\<lparr>edges := filter (\<lambda>e. endpoint_id (edge_source e) \<notin> set nodeIdsToDelete
                                              \<and> endpoint_id (edge_target e) \<notin> set nodeIdsToDelete)
                                    (edges s1),
                        nodes := filter (\<lambda>n. node_id n \<notin> set nodeIdsToDelete) (nodes s1),
                        selectedNodeIds := []\<rparr>
                else s1)
      in s2\<lparr>selectedNodeIds := [], selectedEdgeIds := []\<rparr>)"

definition handleKeyDown :: "bool \<Rightarrow> string \<Rightarrow> State \<Rightarrow> State" where
  "handleKeyDown in_input key s =
     (if in_input then s
      else let s1 = (if key = ''Delete'' \<or> key = ''Backspace'' then deleteSelection s else s)
           in if key = ''Escape'' then clearSelection s1 else s1)"


section \<open>Export and import\<close>

text \<open>
  The exported object, and the object an import receives (parsed JSON of any shape): every
  field may be missing. \<open>null\<close> and \<open>undefined\<close> in place of the object are \<open>JsNull\<close>.
\<close>

record GraphData =
  gd_version :: "nat option"
  gd_nodes :: "Node list option"
  gd_edges :: "Edge list option"
  gd_nodeCounter :: "nat option"
  gd_edgeCounter :: "nat option"
  gd_mode :: "string option"
  gd_timestamp :: "string option"

datatype ImportData = JsNull | JsObject GraphData

definition getGraphDataForExport :: "string \<Rightarrow> State \<Rightarrow> GraphData" where
  "getGraphDataForExport now s =
     \<lparr> gd_version = Some 1,
       gd_nodes = Some (map (\<lambda>n. n\<lparr>node_fx := None, node_fy := None,
                                   node_vx := None, node_vy := None\<rparr>) (nodes s)),
       gd_edges = Some (map (\<lambda>e. e\<lparr>edge_source := EndId (endpoint_id (edge_source e)),
                                   edge_target := EndId (endpoint_id (edge_target e))\<rparr>) (edges s)),
       gd_nodeCounter = Some (nodeCounter s),
       gd_edgeCounter = Some (edgeCounter s),
       gd_mode = Some (mode s),
       gd_timestamp = Some now \<rparr>"

text \<open>
  \<open>a || b\<close> on the fields of the imported object: a missing field, the number 0 and the
  empty string are falsy; an array, also an empty one, is truthy.
\<close>

definition assignGraphData :: "GraphData \<Rightarrow> State \<Rightarrow> State" where
  "assignGraphData graphData s =
     s\<lparr>nodes := (case gd_nodes graphData of None \<Rightarrow> [] | Some ns \<Rightarrow> ns),
       edges := (case gd_edges graphData of None \<Rightarrow> [] | Some es \<Rightarrow> es),
       nodeCounter := (case gd_nodeCounter graphData of None \<Rightarrow> 0 | Some c \<Rightarrow> c),
       edgeCounter := (case gd_edgeCounter graphData of None \<Rightarrow> 0 | Some c \<Rightarrow> c),
       mode := (case gd_mode graphData of None \<Rightarrow> ''force''
                | Some m \<Rightarrow> if m = [] then ''force'' else m)\<rparr>"

text \<open>
  \<open>loadGraphData\<close>: reading a field of \<open>null\<close> throws before anything is assigned; the
  \<open>catch\<close> block reports it and the state stays as it was.
\<close>

definition loadGraphData :: "ImportData \<Rightarrow> State \<Rightarrow> State" where
  "loadGraphData graphData s =
     (case graphData of
        JsNull \<Rightarrow> s
      | JsObject d \<Rightarrow> clearSelection (assignGraphData d s))"


text \<open>
  \<open>spawnTestGraph\<close>: the node "Center" and \<open>nNodes = 100\<close> satellites on a circle, each
  the target of one edge from the centre. Every property reads the clock again:
  \<open>clock k\<close> is the \<open>k\<close>-th reading.
\<close>

definition stamp :: "string \<Rightarrow> string \<Rightarrow> Properties" where
  "stamp created edited =
     [(''createdAt'', \<lparr>pv_type = datetime_t, pv_value = Text created\<rparr>),
      (''editedAt'', \<lparr>pv_type = datetime_t, pv_value = Text edited\<rparr>)]"

definition nNodes :: nat where
  "nNodes = 100"

definition centerNode :: "(string \<Rightarrow> real) \<Rightarrow> (nat \<Rightarrow> string) \<Rightarrow> Node" where
  "centerNode radius_of clock =
     \<lparr> node_id = ''node-0'', node_x = canvasWidth / 2, node_y = canvasHeight / 2,
       node_radius = radius_of ''Center'', node_label = ''Center'', node_color = ''#4285f4'',
       node_properties = stamp (clock 0) (clock 1),
       node_fx = None, node_fy = None, node_vx = None, node_vy = None \<rparr>"

definition satelliteNode :: "(string \<Rightarrow> real) \<Rightarrow> (nat \<Rightarrow> string) \<Rightarrow> nat \<Rightarrow> Node" where
  "satelliteNode radius_of clock i =
     (let angle = (2 * pi * real i) / real nNodes
      in \<lparr> node_id = ''node-'' @ string_of_nat i,
           node_x = canvasWidth / 2 + 250 * cos angle,
           node_y = canvasHeight / 2 + 250 * sin angle,
           node_radius = radius_of (''Node '' @ string_of_nat i),
           node_label = ''Node '' @ string_of_nat i, node_color = ''#4285f4'',
           node_properties = stamp (clock (4 * i - 2)) (clock (4 * i - 1)),
           node_fx = None, node_fy = None, node_vx = None, node_vy = None \<rparr>)"

definition satelliteEdge :: "(nat \<Rightarrow> string) \<Rightarrow> nat \<Rightarrow> Edge" where
  "satelliteEdge clock i =
     \<lparr> edge_id = ''edge-'' @ string_of_nat i,
       edge_source = EndId ''node-0'', edge_target = EndId (''node-'' @ string_of_nat i),
       edge_name = ''Edge '' @ string_of_nat i,
       edge_properties = stamp (clock (4 * i)) (clock (4 * i + 1)) \<rparr>"

definition spawnTestGraph :: "(string \<Rightarrow> real) \<Rightarrow> (nat \<Rightarrow> string) \<Rightarrow> State \<Rightarrow> State" where
  "spawnTestGraph radius_of clock s =
     s\<lparr>nodes := centerNode radius_of clock # map (satelliteNode radius_of clock) [1..<nNodes + 1],
       edges := map (satelliteEdge clock) [1..<nNodes + 1],
       nodeCounter := nNodes, edgeCounter := nNodes\<rparr>"


section \<open>Local repulsion propagator\<close>

text \<open>\<open>Math.sqrt(dx * dx + dy * dy)\<close>\<close>

definition distance :: "real \<Rightarrow> real \<Rightarrow> real" where
  "distance dx dy = sqrt (dx * dx + dy * dy)"

text \<open>Reading the object \<open>d\<close>, and writing to it.\<close>

definition datum :: "Datum \<Rightarrow> Node list \<Rightarrow> Node" where
  "datum d ns = (case d of InArray i \<Rightarrow> ns ! i | Detached n \<Rightarrow> n)"

definition assign :: "(Node \<Rightarrow> Node) \<Rightarrow> Datum \<Rightarrow> Node list \<Rightarrow> Datum \<times> Node list" where
  "assign f d ns =
     (case d of
        InArray i \<Rightarrow> (InArray i, ns[i := f (ns ! i)])
      | Detached n \<Rightarrow> (Detached (f n), ns))"

text \<open>
  One iteration of \<open>nodes.forEach(otherNode => ...)\<close> in \<open>applyRepulsionForce\<close>, for
  the node at index \<open>i\<close>. The dragged node is the object \<open>d\<close>, read as it is at that
  moment. The loop state is the node array and the list \<open>pushedNodes\<close> (as indices).
\<close>

definition repelStep :: "real \<Rightarrow> Datum \<Rightarrow> nat \<Rightarrow> Node list \<times> nat list \<Rightarrow> Node list \<times> nat list" where
  "repelStep forceMultiplier d i st =
     (let ns = fst st; pushedNodes = snd st;
          otherNode = ns ! i; draggedNode = datum d ns;
          dx = node_x otherNode - node_x draggedNode;
          dy = node_y otherNode - node_y draggedNode;
          dist = distance dx dy
      in if dist < repelDistance \<and> dist > 0
         then let force = repelStrength * forceMultiplier * (repelDistance - dist) / dist;
                  forceX = dx * force;
                  forceY = dy * force;
                  originalX = node_x otherNode;
                  originalY = node_y otherNode;
                  moved = otherNode\<lparr>node_x := node_x otherNode + forceX,
                                    node_y := node_y otherNode + forceY\<rparr>;
                  movedDistance = distance (node_x moved - originalX) (node_y moved - originalY)
              in (ns[i := moved], if movedDistance > 1 then pushedNodes @ [i] else pushedNodes)
         else (ns, pushedNodes))"

definition repelPass :: "real \<Rightarrow> Datum \<Rightarrow> Node list \<Rightarrow> Node list \<times> nat list" where
  "repelPass forceMultiplier d ns = fold (repelStep forceMultiplier d) [0..<length ns] (ns, [])"

text \<open>
  \<open>applyRepulsionForce(draggedNode, depth, forceMultiplier)\<close>. The set
  \<open>connectedNodeIds\<close> that the source builds from the edges is never read and is left out,
  and so is the final \<open>nodes = [...nodes]\<close> at depth 0, which copies the array and keeps
  its objects. The pushed nodes are elements of the array; they are visited in the order
  in which they were pushed, each read as it is when its turn comes.
  Besides the node array the function threads a list of the calls made, each with its
  depth, multiplier and node: the array is the program's state, the call list only records
  the recursion.
\<close>

type_synonym Call = "nat \<times> real \<times> Datum"

function applyRepulsionForce_calls ::
  "nat \<Rightarrow> real \<Rightarrow> Datum \<Rightarrow> Node list \<times> Call list \<Rightarrow> Node list \<times> Call list" where
  "applyRepulsionForce_calls depth forceMultiplier d st =
     (let calls = snd st @ [(depth, forceMultiplier, d)]
      in if depth \<ge> maxRecursionDepth then (fst st, calls)
         else fold (\<lambda>pushedNode. applyRepulsionForce_calls (depth + 1) (forceMultiplier * (6 / 10))
                                    (InArray pushedNode))
                (snd (repelPass forceMultiplier d (fst st)))
                (fst (repelPass forceMultiplier d (fst st)), calls))"
  by pat_completeness auto
termination
  by (relation "measure (\<lambda>(depth, forceMultiplier, d, st). maxRecursionDepth - depth)") auto

declare applyRepulsionForce_calls.simps [simp del]

definition applyRepulsionForce :: "nat \<Rightarrow> real \<Rightarrow> Datum \<Rightarrow> Node list \<Rightarrow> Node list" where
  "applyRepulsionForce depth forceMultiplier d ns =
     fst (applyRepulsionForce_calls depth forceMultiplier d (ns, []))"


section \<open>Pointer handlers on a node (d3-drag)\<close>

text \<open>
  A drag event as d3 delivers it: \<open>ev_x, ev_y\<close> are \<open>event.x, event.y\<close> (the subject's
  position at the start of the gesture plus the pointer's displacement), \<open>ev_button\<close> and
  \<open>ev_shiftKey\<close> come from the source event, \<open>ev_target\<close> is the node found under the
  pointer by \<open>findNodeFromElement\<close> and \<open>ev_pointer\<close> the pointer in graph coordinates.
\<close>

record DragEvent =
  ev_x :: real
  ev_y :: real
  ev_button :: nat
  ev_shiftKey :: bool
  ev_target :: "Node option"
  ev_pointer :: "real \<times> real"

definition map_set :: "string \<Rightarrow> real \<times> real \<Rightarrow> (string \<times> real \<times> real) list \<Rightarrow> (string \<times> real \<times> real) list" where
  "map_set k v m =
     (if k \<in> fst ` set m then map (\<lambda>kv. if fst kv = k then (k, v) else kv) m else m @ [(k, v)])"

text \<open>\<open>dragOffsets.get(node.id) || { dx: 0, dy: 0 }\<close>\<close>

definition offset_of :: "(string \<times> real \<times> real) list \<Rightarrow> string \<Rightarrow> real \<times> real" where
  "offset_of m k = (case map_of m k of None \<Rightarrow> (0, 0) | Some v \<Rightarrow> v)"

definition multiDrag :: "Datum \<Rightarrow> State \<Rightarrow> bool" where
  "multiDrag d s \<longleftrightarrow>
     node_id (datum d (nodes s)) \<in> set (selectedNodeIds s) \<and> length (selectedNodeIds s) > 1"

definition pin :: "Node \<Rightarrow> Node" where
  "pin n = n\<lparr>node_fx := Some (node_x n), node_fy := Some (node_y n)\<rparr>"

definition unpin :: "Node \<Rightarrow> Node" where
  "unpin n = n\<lparr>node_fx := None, node_fy := None\<rparr>"

text \<open>
  The three drag handlers return the object \<open>d\<close> as they leave it together with the new
  state. \<open>handleDragStart\<close>: a right-button press starts drawing an edge, any other press
  starts a move.
\<close>

definition handleDragStart :: "DragEvent \<Rightarrow> Datum \<Rightarrow> State \<Rightarrow> Datum \<times> State" where
  "handleDragStart event d s0 =
     (let s = s0\<lparr>isDraggingNode := True\<rparr>
      in if ev_button event = 2
         then (d, s\<lparr>justCompletedEdgeCreation := False, isDraggingForEdge := True,
                     dragSourceNode := Some d\<rparr>)
         else
           let s1 = s\<lparr>isDraggingForEdge := False,
                       dragStartPosition := Some (ev_x event, ev_y event),
                       draggedNode := Some d\<rparr>;
               dn = datum d (nodes s1);
               s2 = (if multiDrag d s1
                     then s1\<lparr>dragOffsets :=
                            fold (\<lambda>n offs. if node_id n \<in> set (selectedNodeIds s1)
                                            then map_set (node_id n)
                                                   (node_x n - node_x dn, node_y n - node_y dn) offs
                                            else offs)
                              (nodes s1) []\<rparr>
                     else s1\<lparr>dragOffsets := []\<rparr>)
           in if mode s2 = ''force''
              then (if multiDrag d s2
                    then (d, s2\<lparr>nodes := map (\<lambda>n. if node_id n \<in> set (selectedNodeIds s2)
                                                   then pin n else n) (nodes s2)\<rparr>)
                    else (fst (assign pin d (nodes s2)),
                          s2\<lparr>nodes := snd (assign pin d (nodes s2))\<rparr>))
              else (d, s2))"

definition place :: "real \<times> real \<Rightarrow> Node \<Rightarrow> Node" where
  "place p n = n\<lparr>node_x := fst p, node_y := snd p\<rparr>"

definition place_pinned :: "real \<times> real \<Rightarrow> Node \<Rightarrow> Node" where
  "place_pinned p n =
     n\<lparr>node_fx := Some (fst p), node_fy := Some (snd p), node_x := fst p, node_y := snd p\<rparr>"

definition dragTarget :: "DragEvent \<Rightarrow> State \<Rightarrow> Node \<Rightarrow> real \<times> real" where
  "dragTarget event s n =
     (ev_x event + fst (offset_of (dragOffsets s) (node_id n)),
      ev_y event + snd (offset_of (dragOffsets s) (node_id n)))"

text \<open>
  \<open>handleDrag\<close>. In a multi-drag in manual mode the moved nodes are collected in
  \<open>nodesToUpdate\<close> (here their indices) and the propagator runs on each in turn, at depth 0
  with multiplier 1. In a single-node drag in manual mode the object \<open>d\<close> is moved, the
  propagator runs from it, and \<open>nodes.map\<close> then replaces every array element with the id
  of \<open>d\<close> by a copy placed where \<open>d\<close> is: from then on \<open>d\<close> is no element of the array.
\<close>

definition handleDrag :: "DragEvent \<Rightarrow> Datum \<Rightarrow> State \<Rightarrow> Datum \<times> State" where
  "handleDrag event d s =
     (if \<not> isDraggingForEdge s
      then
        if multiDrag d s \<and> length (dragOffsets s) > 0
        then
          if mode s = ''force''
          then (d, s\<lparr>nodes := map (\<lambda>n. if node_id n \<in> set (selectedNodeIds s)
                                        then place_pinned (dragTarget event s n) n else n) (nodes s)\<rparr>)
          else
            let placed = map (\<lambda>n. if node_id n \<in> set (selectedNodeIds s)
                                   then place (dragTarget event s n) n else n) (nodes s);
                nodesToUpdate = filter (\<lambda>i. node_id (nodes s ! i) \<in> set (selectedNodeIds s))
                                  [0..<length (nodes s)]
            in (d, s\<lparr>nodes := fold (\<lambda>i ns. applyRepulsionForce 0 1 (InArray i) ns)
                                   nodesToUpdate placed\<rparr>)
        else
          if mode s = ''force''
          then (fst (assign (place_pinned (ev_x event, ev_y event)) d (nodes s)),
                s\<lparr>nodes := snd (assign (place_pinned (ev_x event, ev_y event)) d (nodes s))\<rparr>)
          else
            let d1 = fst (assign (place (ev_x event, ev_y event)) d (nodes s));
                moved = snd (assign (place (ev_x event, ev_y event)) d (nodes s));
                repelled = applyRepulsionForce 0 1 d1 moved;
                dn = datum d1 repelled
            in (Detached dn,
                s\<lparr>nodes := map (\<lambda>n. if node_id n = node_id dn
                                      then place (node_x dn, node_y dn) n else n) repelled\<rparr>)
      else (d, s))"



section \<open>Pointer handlers on the canvas\<close>



text \<open>The nodes whose position, under the zoom transform, lies in the selection box.\<close>

definition inSelectionBox :: "State \<Rightarrow> real \<times> real \<Rightarrow> Node \<Rightarrow> bool" where
  "inSelectionBox s end_pos n =
     (let selX = min (fst (selectionStart s)) (fst end_pos);
          selY = min (snd (selectionStart s)) (snd end_pos);
          selWidth = \<bar>fst end_pos - fst (selectionStart s)\<bar>;
          selHeight = \<bar>snd end_pos - snd (selectionStart s)\<bar>;
          nodeX = node_x n * zoom_k s + zoom_x s;
          nodeY = node_y n * zoom_k s + zoom_y s
      in nodeX \<ge> selX \<and> nodeX \<le> selX + selWidth \<and> nodeY \<ge> selY \<and> nodeY \<le> selY + selHeight)"




section \<open>Notions used to state the claims\<close>

text \<open>The edges of a state with an end that is the id of no node of the state.\<close>

definition danglingEdges :: "State \<Rightarrow> Edge list" where
  "danglingEdges s =
     filter (\<lambda>e. endpoint_id (edge_source e) \<notin> node_id ` set (nodes s)
                \<or> endpoint_id (edge_target e) \<notin> node_id ` set (nodes s)) (edges s)"

text \<open>The ids of the edges of one state that are no longer edges of a later state.\<close>

definition removedEdgeIds :: "State \<Rightarrow> State \<Rightarrow> string list" where
  "removedEdgeIds before after =
     map edge_id (filter (\<lambda>e. e \<notin> set (edges after)) (edges before))"

text \<open>An object \<open>d\<close> that is an index is an index of the array.\<close>

definition validDatum :: "Datum \<Rightarrow> Node list \<Rightarrow> bool" where
  "validDatum d ns \<longleftrightarrow> (case d of InArray i \<Rightarrow> i < length ns | Detached n \<Rightarrow> True)"

text \<open>
  One pass of the propagator in closed form: \<open>inRange\<close> says that a node lies within the
  repulsion distance of the dragged node and not on it, \<open>repelled\<close> is the node after the
  pass and \<open>pushedFurther\<close> says that the pass moved it by more than one pixel.
\<close>

definition inRange :: "Node \<Rightarrow> Node \<Rightarrow> bool" where
  "inRange dragged other \<longleftrightarrow>
     distance (node_x other - node_x dragged) (node_y other - node_y dragged)
       < repelDistance
     \<and> distance (node_x other - node_x dragged) (node_y other - node_y dragged) > 0"

definition repelled :: "real \<Rightarrow> Node \<Rightarrow> Node \<Rightarrow> Node" where
  "repelled forceMultiplier dragged other =
     (let dx = node_x other - node_x dragged;
          dy = node_y other - node_y dragged;
          dist = distance dx dy;
          force = repelStrength * forceMultiplier * (repelDistance - dist) / dist
      in if inRange dragged other
         then other\<lparr>node_x := node_x other + dx * force,
                        node_y := node_y other + dy * force\<rparr>
         else other)"

definition pushedFurther :: "real \<Rightarrow> Node \<Rightarrow> Node \<Rightarrow> bool" where
  "pushedFurther forceMultiplier dragged other \<longleftrightarrow>
     inRange dragged other
     \<and> distance (node_x (repelled forceMultiplier dragged other) - node_x other)
                 (node_y (repelled forceMultiplier dragged other) - node_y other) > 1"


text \<open>
  A recorded call lies within the recursion that starts at \<open>depth\<close> with
  \<open>forceMultiplier\<close>: its depth is between the start and the cap, and its multiplier has
  decayed by 6/10 per level.
\<close>

definition callWithin :: "nat \<Rightarrow> real \<Rightarrow> Call \<Rightarrow> bool" where
  "callWithin depth forceMultiplier c \<longleftrightarrow>
     depth \<le> fst c \<and> fst c \<le> max depth maxRecursionDepth
     \<and> fst (snd c) = forceMultiplier * (6 / 10) ^ (fst c - depth)"

text \<open>
  A multi-select drag: \<open>translated dx dy s\<close> is the node array of \<open>s\<close> with every selected
  node moved by \<open>(dx, dy)\<close>, \<open>translatedPinned\<close> the same with the moved nodes pinned
  there. \<open>clearOfRepulsion s ns\<close> says that in \<open>ns\<close> no node lies within the repulsion
  distance of a selected node. \<open>offsetStep\<close> is the body of the loop that fills
  \<open>dragOffsets\<close> in \<open>handleDragStart\<close>.
\<close>

definition selectedNode :: "State \<Rightarrow> Node \<Rightarrow> bool" where
  "selectedNode s n \<longleftrightarrow> node_id n \<in> set (selectedNodeIds s)"

definition translated :: "real \<Rightarrow> real \<Rightarrow> State \<Rightarrow> Node list" where
  "translated dx dy s =
     map (\<lambda>n. if selectedNode s n then place (node_x n + dx, node_y n + dy) n else n) (nodes s)"

definition translatedPinned :: "real \<Rightarrow> real \<Rightarrow> State \<Rightarrow> Node list" where
  "translatedPinned dx dy s =
     map (\<lambda>n. if selectedNode s n then place_pinned (node_x n + dx, node_y n + dy) n else n)
       (nodes s)"

definition clearOfRepulsion :: "State \<Rightarrow> Node list \<Rightarrow> bool" where
  "clearOfRepulsion s ns \<longleftrightarrow>
     list_all (\<lambda>a. list_all (\<lambda>b. \<not> inRange a b) ns) (filter (selectedNode s) ns)"

definition offsetStep :: "string list \<Rightarrow> Node \<Rightarrow> Node \<Rightarrow> (string \<times> real \<times> real) list \<Rightarrow> (string \<times> real \<times> real) list" where
  "offsetStep sel dn n offs =
     (if node_id n \<in> set sel
      then map_set (node_id n) (node_x n - node_x dn, node_y n - node_y dn) offs
      else offs)"

text \<open>
  d3-drag calls the handlers of one gesture with the object that was the element's datum
  at the press: \<open>dragMoves\<close> runs \<open>handleDrag\<close> for a list of move events, each on the
  object and the state as the event before left them. \<open>grabbed\<close> reads the object in the
  state it is returned with.
\<close>

definition dragMoves :: "DragEvent list \<Rightarrow> Datum \<times> State \<Rightarrow> Datum \<times> State" where
  "dragMoves evs r = fold (\<lambda>ev r. handleDrag ev (fst r) (snd r)) evs r"




text \<open>
  Every node id is \<open>node-k\<close> for some \<open>k\<close> up to the node counter: the invariant that
  makes the id of the next node fresh.
\<close>

definition idsBelowCounter :: "State \<Rightarrow> bool" where
  "idsBelowCounter s \<longleftrightarrow>
     (\<forall>n \<in> set (nodes s). \<exists>k. k \<le> nodeCounter s \<and> node_id n = ''node-'' @ string_of_nat k)"


section \<open>Concrete graphs and runs\<close>

text \<open>Small concrete states on which the theorems below are instantiated.\<close>

definition exampleNode :: "string \<Rightarrow> real \<Rightarrow> real \<Rightarrow> Node" where
  "exampleNode ident px py =
     \<lparr> node_id = ident, node_x = px, node_y = py, node_radius = 15, node_label = ident,
       node_color = ''#4285f4'', node_properties = [],
       node_fx = None, node_fy = None, node_vx = None, node_vy = None \<rparr>"

definition exampleEdge :: "string \<Rightarrow> string \<Rightarrow> string \<Rightarrow> Edge" where
  "exampleEdge ident src tgt =
     \<lparr> edge_id = ident, edge_source = EndId src, edge_target = EndId tgt,
       edge_name = ident, edge_properties = [] \<rparr>"

definition blankDialogState :: State where
  "blankDialogState =
     initialState\<lparr>nodes := [exampleNode ''node-1'' 0 0, exampleNode ''node-2'' 100 0],
       nodeCounter := 2,
       showCreateNodeDialog := True, pendingNodePosition := Some (10, 20),
       createNodeName := ''  '',
       showCreateEdgeDialog := True,
       pendingEdge := Some (exampleNode ''node-1'' 0 0, exampleNode ''node-2'' 100 0),
       createEdgeName := [CHR 0x09, CHR '' '']\<rparr>"

definition danglingDialogState :: State where
  "danglingDialogState =
     initialState\<lparr>nodes := [exampleNode ''node-2'' 100 0], nodeCounter := 2,
       showCreateEdgeDialog := True,
       pendingEdge := Some (exampleNode ''node-1'' 0 0, exampleNode ''node-2'' 100 0),
       createEdgeName := ''knows''\<rparr>"

definition linkedDialogState :: State where
  "linkedDialogState =
     initialState\<lparr>nodes := [exampleNode ''node-1'' 0 0, exampleNode ''node-2'' 100 0],
       nodeCounter := 2, showCreateEdgeDialog := True,
       pendingEdge := Some (exampleNode ''node-1'' 0 0, exampleNode ''node-2'' 100 0),
       createEdgeName := ''knows''\<rparr>"

definition chainState :: State where
  "chainState =
     initialState\<lparr>
       nodes := [exampleNode ''node-1'' 0 0, exampleNode ''node-2'' 100 0,
                 exampleNode ''node-3'' 200 0],
       edges := [exampleEdge ''edge-1'' ''node-1'' ''node-2'',
                 exampleEdge ''edge-2'' ''node-2'' ''node-3''],
       nodeCounter := 3, edgeCounter := 2\<rparr>"



definition freshStart :: State where
  "freshStart = spawnTestGraph (\<lambda>t. 15) (\<lambda>k. ''2025-01-01T00:00:00.000Z'') initialState"

definition edgeDialogOnFreshStart :: State where
  "edgeDialogOnFreshStart =
     (createEdge (nodes freshStart ! 1) (nodes freshStart ! 2) freshStart)
       \<lparr>createEdgeName := ''knows''\<rparr>"

definition threeOnALine :: "Node list" where
  "threeOnALine = [exampleNode ''node-1'' 0 0, exampleNode ''node-2'' 10 0,
                   exampleNode ''node-3'' 100 0, exampleNode ''node-4'' 0 0]"

definition nearEdgeLine :: "Node list" where
  "nearEdgeLine = [exampleNode ''node-1'' 0 0, exampleNode ''node-2'' 75 0,
                   exampleNode ''node-3'' (309 / 2) 0, exampleNode ''node-4'' 0 0]"

definition leftDragEvent :: "real \<Rightarrow> real \<Rightarrow> DragEvent" where
  "leftDragEvent px py =
     \<lparr> ev_x = px, ev_y = py, ev_button = 0, ev_shiftKey = False,
       ev_target = None, ev_pointer = (px, py) \<rparr>"

definition rightDragEvent :: "real \<Rightarrow> real \<Rightarrow> Node option \<Rightarrow> DragEvent" where
  "rightDragEvent px py target =
     \<lparr> ev_x = px, ev_y = py, ev_button = 2, ev_shiftKey = False,
       ev_target = target, ev_pointer = (px, py) \<rparr>"

definition closePairState :: State where
  "closePairState =
     initialState\<lparr>nodes := [exampleNode ''node-1'' 0 0, exampleNode ''node-2'' 78 0],
       nodeCounter := 2, mode := ''manual'',
       selectedNodeIds := [''node-1'', ''node-2'']\<rparr>"

definition closePairForce :: State where
  "closePairForce = closePairState\<lparr>mode := ''force''\<rparr>"

definition farTrioState :: State where
  "farTrioState =
     initialState\<lparr>nodes := [exampleNode ''node-1'' 0 0, exampleNode ''node-2'' 200 0,
                             exampleNode ''node-3'' 500 0],
       nodeCounter := 3, selectedNodeIds := [''node-1'', ''node-2'']\<rparr>"

definition farTrioManual :: State where
  "farTrioManual = farTrioState\<lparr>mode := ''manual''\<rparr>"









section \<open>Blank names in the create dialogs\<close>

lemma trim_Nil_iff_blank: "trim str = [] \<longleftrightarrow> blank str"
proof
  assume "trim str = []"
  then have all_ws: "\<forall>c \<in> set (dropWhile js_whitespace str). js_whitespace c"
    by (simp add: trim_def)
  have "dropWhile js_whitespace str = []"
  proof (rule ccontr)
    assume ne: "dropWhile js_whitespace str \<noteq> []"
    then have "\<not> js_whitespace (hd (dropWhile js_whitespace str))"
      by (rule hd_dropWhile)
    moreover have "hd (dropWhile js_whitespace str) \<in> set (dropWhile js_whitespace str)"
      using ne by (rule hd_in_set)
    ultimately show False using all_ws by blast
  qed
  then show "blank str"
    by (simp add: blank_def list_all_iff)
next
  assume "blank str"
  then show "trim str = []"
    by (auto simp: trim_def blank_def list_all_iff dest: set_dropWhileD)
qed

text \<open>
  Claim C10. Confirming the create-node dialog with an empty or white-space-only name, or
  the create-edge dialog (through either of its two confirm functions) with such a name,
  closes the dialog and leaves nodes, edges and both id counters as they were.
\<close>

theorem blank_name_creates_nothing:
  "(blank (createNodeName s) \<longrightarrow>
      graph (createNodeFromDialog radius_of now s) = graph s
      \<and> \<not> showCreateNodeDialog (createNodeFromDialog radius_of now s))
   \<and> (blank (createEdgeName s) \<longrightarrow>
      graph (confirmCreateEdge now s) = graph s
      \<and> \<not> showCreateEdgeDialog (confirmCreateEdge now s)
      \<and> graph (createEdgeFromDialog now s) = graph s
      \<and> \<not> showCreateEdgeDialog (createEdgeFromDialog now s))"
proof (intro conjI impI)
  assume b: "blank (createNodeName s)"
  then have t: "trim (createNodeName s) = []" by (simp add: trim_Nil_iff_blank)
  show "graph (createNodeFromDialog radius_of now s) = graph s"
    using t by (simp add: createNodeFromDialog_def closeCreateNodeDialog_def graph_def
        split: option.split prod.split)
  show "\<not> showCreateNodeDialog (createNodeFromDialog radius_of now s)"
    by (simp add: createNodeFromDialog_def closeCreateNodeDialog_def)
next
  assume b: "blank (createEdgeName s)"
  then have t: "trim (createEdgeName s) = []" by (simp add: trim_Nil_iff_blank)
  show "graph (confirmCreateEdge now s) = graph s"
    using t by (simp add: confirmCreateEdge_def closeCreateEdgeDialog_def graph_def
        split: option.split prod.split)
  show "\<not> showCreateEdgeDialog (confirmCreateEdge now s)"
    by (simp add: confirmCreateEdge_def closeCreateEdgeDialog_def)
  show "graph (createEdgeFromDialog now s) = graph s"
    using t by (simp add: createEdgeFromDialog_def closeCreateEdgeDialog_def graph_def)
  show "\<not> showCreateEdgeDialog (createEdgeFromDialog now s)"
    by (simp add: createEdgeFromDialog_def closeCreateEdgeDialog_def
        split: option.split prod.split)
qed

theorem blank_name_creates_nothing_witness:
  "blank (createNodeName blankDialogState)
   \<and> blank (createEdgeName blankDialogState)
   \<and> showCreateNodeDialog blankDialogState
   \<and> showCreateEdgeDialog blankDialogState
   \<and> pendingNodePosition blankDialogState \<noteq> None
   \<and> pendingEdge blankDialogState \<noteq> None
   \<and> graph (createNodeFromDialog (\<lambda>t. 15) ''2025-01-01T00:00:00.000Z'' blankDialogState)
       = graph blankDialogState
   \<and> \<not> showCreateNodeDialog
         (createNodeFromDialog (\<lambda>t. 15) ''2025-01-01T00:00:00.000Z'' blankDialogState)
   \<and> graph (confirmCreateEdge ''2025-01-01T00:00:00.000Z'' blankDialogState)
       = graph blankDialogState
   \<and> \<not> showCreateEdgeDialog (confirmCreateEdge ''2025-01-01T00:00:00.000Z'' blankDialogState)
   \<and> graph (createEdgeFromDialog ''2025-01-01T00:00:00.000Z'' blankDialogState)
       = graph blankDialogState
   \<and> \<not> showCreateEdgeDialog (createEdgeFromDialog ''2025-01-01T00:00:00.000Z'' blankDialogState)"
proof -
  have b1: "blank (createNodeName blankDialogState)"
    by (simp add: blankDialogState_def initialState_def blank_def js_whitespace_def)
  have b2: "blank (createEdgeName blankDialogState)"
    by (simp add: blankDialogState_def initialState_def blank_def js_whitespace_def)
  have open_dialogs: "showCreateNodeDialog blankDialogState \<and> showCreateEdgeDialog blankDialogState
      \<and> pendingNodePosition blankDialogState \<noteq> None \<and> pendingEdge blankDialogState \<noteq> None"
    by (simp add: blankDialogState_def initialState_def)
  show ?thesis
    using b1 b2 open_dialogs
      blank_name_creates_nothing [of blankDialogState "\<lambda>t. 15" "''2025-01-01T00:00:00.000Z''"]
    by simp
qed

section \<open>Creating an edge with a missing end\<close>

text \<open>
  Claim C1, as stated, at a concrete state: the create-edge dialog is open for the nodes
  \<open>node-1\<close> and \<open>node-2\<close> and \<open>node-1\<close> is no longer in the node array. Confirming
  does not fail and does not leave the graph unchanged: the edge is appended and the
  edge counter advances.
\<close>

theorem addEdge_dangling_counterexample:
  "pendingEdge danglingDialogState
     = Some (exampleNode ''node-1'' 0 0, exampleNode ''node-2'' 100 0)
   \<and> node_id (exampleNode ''node-1'' 0 0) \<notin> node_id ` set (nodes danglingDialogState)
   \<and> edges danglingDialogState = []

   \<and> edgeCounter danglingDialogState = 0
   \<and> edges (createEdgeFromDialog ''2025-01-01T00:00:00.000Z'' danglingDialogState)
       = [newEdge ''2025-01-01T00:00:00.000Z'' 0 ''node-1'' ''node-2'' ''knows'']
   \<and> edgeCounter (createEdgeFromDialog ''2025-01-01T00:00:00.000Z'' danglingDialogState) = 1
   \<and> graph (createEdgeFromDialog ''2025-01-01T00:00:00.000Z'' danglingDialogState)
       \<noteq> graph danglingDialogState
   \<and> graph (confirmCreateEdge ''2025-01-01T00:00:00.000Z'' danglingDialogState)
       \<noteq> graph danglingDialogState"
  by (simp add: danglingDialogState_def initialState_def exampleNode_def endpoint_id_def
      createEdgeFromDialog_def confirmCreateEdge_def closeCreateEdgeDialog_def graph_def
      trim_def js_whitespace_def)

text \<open>
  Claim C1, amended. The two confirm functions of the create-edge dialog check no endpoint
  and have no failure outcome: with a pending pair of nodes and a non-blank name each
  appends exactly one edge from the pending source's id to the pending target's id and
  advances the edge counter by one, leaving the nodes and the node counter untouched,
  whether or not those ids are ids of nodes. When both are ids of nodes and no edge was
  dangling before, no edge is dangling afterwards.
\<close>

theorem addEdge_appends_unchecked:
  assumes pending: "pendingEdge s = Some (src, tgt)"
    and named: "\<not> blank (createEdgeName s)"
  shows "nodes (createEdgeFromDialog now s) = nodes s
    \<and> nodeCounter (createEdgeFromDialog now s) = nodeCounter s
    \<and> edges (createEdgeFromDialog now s)
        = edges s @ [newEdge now (edgeCounter s) (node_id src) (node_id tgt) (createEdgeName s)]
    \<and> edgeCounter (createEdgeFromDialog now s) = edgeCounter s + 1
    \<and> nodes (confirmCreateEdge now s) = nodes s
    \<and> nodeCounter (confirmCreateEdge now s) = nodeCounter s
    \<and> edges (confirmCreateEdge now s)
        = edges s @ [newEdge now (edgeCounter s + 1) (node_id src) (node_id tgt)
                       (trim (createEdgeName s))]
    \<and> edgeCounter (confirmCreateEdge now s) = edgeCounter s + 1
    \<and> (node_id src \<in> node_id ` set (nodes s) \<and> node_id tgt \<in> node_id ` set (nodes s)
         \<and> danglingEdges s = []
        \<longrightarrow> danglingEdges (createEdgeFromDialog now s) = []
            \<and> danglingEdges (confirmCreateEdge now s) = [])"
proof -
  have t: "trim (createEdgeName s) \<noteq> []"
    using named by (simp add: trim_Nil_iff_blank)
  have n1: "nodes (createEdgeFromDialog now s) = nodes s"
    using pending t by (simp add: createEdgeFromDialog_def closeCreateEdgeDialog_def)
  have e1: "edges (createEdgeFromDialog now s)
        = edges s @ [newEdge now (edgeCounter s) (node_id src) (node_id tgt) (createEdgeName s)]"
    using pending t by (simp add: createEdgeFromDialog_def closeCreateEdgeDialog_def)
  have n2: "nodes (confirmCreateEdge now s) = nodes s"
    using pending t by (simp add: confirmCreateEdge_def closeCreateEdgeDialog_def)
  have e2: "edges (confirmCreateEdge now s)
        = edges s @ [newEdge now (edgeCounter s + 1) (node_id src) (node_id tgt)
                       (trim (createEdgeName s))]"
    using pending t by (simp add: confirmCreateEdge_def closeCreateEdgeDialog_def)
  have c: "nodeCounter (createEdgeFromDialog now s) = nodeCounter s
    \<and> edgeCounter (createEdgeFromDialog now s) = edgeCounter s + 1
    \<and> nodeCounter (confirmCreateEdge now s) = nodeCounter s
    \<and> edgeCounter (confirmCreateEdge now s) = edgeCounter s + 1"
    using pending t
    by (simp add: createEdgeFromDialog_def confirmCreateEdge_def closeCreateEdgeDialog_def)
  have d: "danglingEdges (createEdgeFromDialog now s) = [] \<and> danglingEdges (confirmCreateEdge now s) = []"
    if "node_id src \<in> node_id ` set (nodes s)" "node_id tgt \<in> node_id ` set (nodes s)"
      "danglingEdges s = []"
    using that n1 e1 n2 e2
    by (simp add: danglingEdges_def newEdge_def endpoint_id_def)
  show ?thesis using n1 e1 n2 e2 c d by blast
qed

theorem addEdge_appends_unchecked_witness:
  "pendingEdge linkedDialogState
     = Some (exampleNode ''node-1'' 0 0, exampleNode ''node-2'' 100 0)
   \<and> \<not> blank (createEdgeName linkedDialogState)
   \<and> node_id (exampleNode ''node-1'' 0 0) \<in> node_id ` set (nodes linkedDialogState)
   \<and> node_id (exampleNode ''node-2'' 100 0) \<in> node_id ` set (nodes linkedDialogState)
   \<and> danglingEdges linkedDialogState = []
   \<and> edges (createEdgeFromDialog ''2025-01-01T00:00:00.000Z'' linkedDialogState)
       = [newEdge ''2025-01-01T00:00:00.000Z'' 0 ''node-1'' ''node-2'' ''knows'']
   \<and> edges (confirmCreateEdge ''2025-01-01T00:00:00.000Z'' linkedDialogState)
       = [newEdge ''2025-01-01T00:00:00.000Z'' 1 ''node-1'' ''node-2'' ''knows'']
   \<and> danglingEdges (createEdgeFromDialog ''2025-01-01T00:00:00.000Z'' linkedDialogState) = []
   \<and> danglingEdges (confirmCreateEdge ''2025-01-01T00:00:00.000Z'' linkedDialogState) = []"
proof -
  have p: "pendingEdge linkedDialogState
     = Some (exampleNode ''node-1'' 0 0, exampleNode ''node-2'' 100 0)"
    by (simp add: linkedDialogState_def)
  have nb: "\<not> blank (createEdgeName linkedDialogState)"
    by (simp add: linkedDialogState_def blank_def js_whitespace_def)
  have facts: "node_id (exampleNode ''node-1'' 0 0) \<in> node_id ` set (nodes linkedDialogState)
     \<and> node_id (exampleNode ''node-2'' 100 0) \<in> node_id ` set (nodes linkedDialogState)
     \<and> danglingEdges linkedDialogState = []
     \<and> edges linkedDialogState = [] \<and> edgeCounter linkedDialogState = 0
     \<and> trim (createEdgeName linkedDialogState) = ''knows''"
    by (simp add: linkedDialogState_def initialState_def exampleNode_def danglingEdges_def
        trim_def js_whitespace_def)
  show ?thesis
    using p nb facts
      addEdge_appends_unchecked [OF p nb, of "''2025-01-01T00:00:00.000Z''"]
    by (simp add: exampleNode_def linkedDialogState_def)
qed


section \<open>Removing a node\<close>

text \<open>
  Claim C2, as stated, at a concrete graph: the chain \<open>node-1 \<rightarrow> node-2 \<rightarrow> node-3\<close>.
  Deleting \<open>node-1\<close> removes the edge \<open>edge-1\<close>, but the call evaluates to \<open>undefined\<close>:
  the removed edge ids are not reported.
\<close>

theorem removeNode_reports_counterexample:
  "removedEdgeIds chainState (snd (deleteNode (exampleNode ''node-1'' 0 0) chainState))
     = [''edge-1'']
   \<and> fst (deleteNode (exampleNode ''node-1'' 0 0) chainState) = Undefined
   \<and> fst (deleteNode (exampleNode ''node-1'' 0 0) chainState) \<noteq> Value [''edge-1'']"
  by (simp add: removedEdgeIds_def chainState_def initialState_def deleteNode_def Let_def
      exampleNode_def exampleEdge_def endpoint_id_def)

text \<open>
  Claim C2, amended. For every graph and every node, \<open>deleteNode\<close> keeps exactly the
  nodes with another id and exactly the edges whose source id and target id both differ
  from the deleted id, each kept record unaltered and in its old order; the id counters
  are untouched. The function returns nothing. Deleting the node through the Delete key,
  with that node alone selected, leaves the same nodes and edges.
\<close>

theorem removeNode_cascades:
  "(\<forall>n. n \<in> set (nodes (snd (deleteNode nodeToDelete s)))
          \<longleftrightarrow> n \<in> set (nodes s) \<and> node_id n \<noteq> node_id nodeToDelete)
   \<and> (\<forall>e. e \<in> set (edges (snd (deleteNode nodeToDelete s)))
          \<longleftrightarrow> e \<in> set (edges s)
              \<and> endpoint_id (edge_source e) \<noteq> node_id nodeToDelete
              \<and> endpoint_id (edge_target e) \<noteq> node_id nodeToDelete)
   \<and> subseq (nodes (snd (deleteNode nodeToDelete s))) (nodes s)
   \<and> subseq (edges (snd (deleteNode nodeToDelete s))) (edges s)
   \<and> nodeCounter (snd (deleteNode nodeToDelete s)) = nodeCounter s
   \<and> edgeCounter (snd (deleteNode nodeToDelete s)) = edgeCounter s
   \<and> fst (deleteNode nodeToDelete s) = Undefined
   \<and> nodes (handleKeyDown False ''Delete''
               (s\<lparr>selectedNodeIds := [node_id nodeToDelete], selectedEdgeIds := []\<rparr>))
       = nodes (snd (deleteNode nodeToDelete s))
   \<and> edges (handleKeyDown False ''Delete''
               (s\<lparr>selectedNodeIds := [node_id nodeToDelete], selectedEdgeIds := []\<rparr>))
       = edges (snd (deleteNode nodeToDelete s))"
  by (simp add: deleteNode_def Let_def hidePopover_def handleKeyDown_def deleteSelection_def)

theorem removeNode_cascades_witness:
  "map node_id (nodes (snd (deleteNode (exampleNode ''node-2'' 100 0) chainState)))
     = [''node-1'', ''node-3'']
   \<and> edges (snd (deleteNode (exampleNode ''node-2'' 100 0) chainState)) = []
   \<and> exampleNode ''node-2'' 100 0 \<in> set (nodes chainState)
   \<and> exampleNode ''node-2'' 100 0
        \<notin> set (nodes (snd (deleteNode (exampleNode ''node-2'' 100 0) chainState)))
   \<and> exampleNode ''node-3'' 200 0
        \<in> set (nodes (snd (deleteNode (exampleNode ''node-2'' 100 0) chainState)))"
  using removeNode_cascades [of "exampleNode ''node-2'' 100 0" chainState]
  by (simp add: chainState_def initialState_def deleteNode_def Let_def
      exampleNode_def exampleEdge_def endpoint_id_def)

section \<open>Import\<close>




section \<open>Round trip of the test graph\<close>

text \<open>
  For every graph, export followed by import keeps the ids, labels and properties of
  all nodes and the ids, names and properties of all edges, and both counters; what an
  export drops are the pins and velocities of the nodes.
\<close>

lemma export_import_keeps:
  "map node_id (nodes (loadGraphData (JsObject (getGraphDataForExport now s)) s1))
     = map node_id (nodes s)"
  "map node_label (nodes (loadGraphData (JsObject (getGraphDataForExport now s)) s1))
     = map node_label (nodes s)"
  "map node_properties (nodes (loadGraphData (JsObject (getGraphDataForExport now s)) s1))
     = map node_properties (nodes s)"
  "map edge_id (edges (loadGraphData (JsObject (getGraphDataForExport now s)) s1))
     = map edge_id (edges s)"
  "map edge_name (edges (loadGraphData (JsObject (getGraphDataForExport now s)) s1))
     = map edge_name (edges s)"
  "map edge_properties (edges (loadGraphData (JsObject (getGraphDataForExport now s)) s1))
     = map edge_properties (edges s)"
  "nodeCounter (loadGraphData (JsObject (getGraphDataForExport now s)) s1) = nodeCounter s"
  "edgeCounter (loadGraphData (JsObject (getGraphDataForExport now s)) s1) = edgeCounter s"
  by (simp_all add: loadGraphData_def getGraphDataForExport_def assignGraphData_def
      clearSelection_def hidePopover_def comp_def)

text \<open>
  Claim C4. For the test graph (the node "Center" and 100 satellites, each the target of
  one edge from the centre) exporting and importing the exported data gives 101 nodes and
  100 edges, and the node and edge records are the original ones: ids, labels,
  properties and every other field.
\<close>

theorem testGraph_roundtrip:
  "length (nodes (loadGraphData
             (JsObject (getGraphDataForExport now (spawnTestGraph radius_of clock s0))) s1)) = 101
   \<and> length (edges (loadGraphData
             (JsObject (getGraphDataForExport now (spawnTestGraph radius_of clock s0))) s1)) = 100
   \<and> nodes (loadGraphData
             (JsObject (getGraphDataForExport now (spawnTestGraph radius_of clock s0))) s1)
       = nodes (spawnTestGraph radius_of clock s0)
   \<and> edges (loadGraphData
             (JsObject (getGraphDataForExport now (spawnTestGraph radius_of clock s0))) s1)
       = edges (spawnTestGraph radius_of clock s0)
   \<and> nodeCounter (loadGraphData
             (JsObject (getGraphDataForExport now (spawnTestGraph radius_of clock s0))) s1) = 100
   \<and> edgeCounter (loadGraphData
             (JsObject (getGraphDataForExport now (spawnTestGraph radius_of clock s0))) s1) = 100
   \<and> node_label (hd (nodes (spawnTestGraph radius_of clock s0))) = ''Center''
   \<and> node_x (hd (nodes (spawnTestGraph radius_of clock s0))) = 850
   \<and> node_y (hd (nodes (spawnTestGraph radius_of clock s0))) = 350
   \<and> list_all (\<lambda>e. edge_source e = EndId (node_id (hd (nodes (spawnTestGraph radius_of clock s0)))))
        (edges (spawnTestGraph radius_of clock s0))
   \<and> map edge_target (edges (spawnTestGraph radius_of clock s0))
       = map (\<lambda>n. EndId (node_id n)) (tl (nodes (spawnTestGraph radius_of clock s0)))"
  by (simp add: loadGraphData_def getGraphDataForExport_def assignGraphData_def
      clearSelection_def hidePopover_def spawnTestGraph_def nNodes_def
      centerNode_def satelliteNode_def satelliteEdge_def endpoint_id_def comp_def list_all_iff
      Let_def canvasWidth_def canvasHeight_def)

section \<open>Ids of new nodes and edges\<close>

text \<open>
  Node ids. \<open>addNode\<close> builds the id from the incremented counter; decimal numerals
  are injective, so the new id differs from every id present, and the ids stay distinct.
  The invariant holds initially and for the test graph.
\<close>

lemma string_of_nat_nonempty: "string_of_nat n \<noteq> []"
  by (subst string_of_nat.simps) simp

lemma digit_inj:
  assumes "a < 10" and "b < 10" and "''0123456789'' ! a = ''0123456789'' ! b"
  shows "a = b"
proof -
  have "distinct ''0123456789''" by simp
  moreover have "a < length ''0123456789''" "b < length ''0123456789''"
    using assms by simp_all
  ultimately show ?thesis
    using assms(3) nth_eq_iff_index_eq by blast
qed

lemma string_of_nat_small: "n < 10 \<Longrightarrow> string_of_nat n = [''0123456789'' ! n]"
  by (subst string_of_nat.simps) simp

lemma string_of_nat_large:
  "\<not> n < 10 \<Longrightarrow> string_of_nat n = string_of_nat (n div 10) @ [''0123456789'' ! (n mod 10)]"
  by (subst string_of_nat.simps) simp

lemma string_of_nat_small_length: "n < 10 \<Longrightarrow> length (string_of_nat n) = 1"
  by (simp only: string_of_nat_small) simp

lemma string_of_nat_large_length: "\<not> n < 10 \<Longrightarrow> length (string_of_nat n) \<ge> 2"
proof -
  assume large: "\<not> n < 10"
  have "length (string_of_nat (n div 10)) \<ge> 1"
    using string_of_nat_nonempty [of "n div 10"] by (simp add: Suc_le_eq)
  moreover have "string_of_nat n = string_of_nat (n div 10) @ [''0123456789'' ! (n mod 10)]"
    using large by (rule string_of_nat_large)
  ultimately show ?thesis by simp
qed

lemma string_of_nat_inj: "string_of_nat n = string_of_nat m \<Longrightarrow> n = m"
proof (induction n arbitrary: m rule: string_of_nat.induct)
  case (1 n)
  have len: "length (string_of_nat n) = length (string_of_nat m)"
    using "1.prems" by (simp only:)
  show ?case
  proof (cases "n < 10")
    case small_n: True
    show ?thesis
    proof (cases "m < 10")
      case True
      have "[''0123456789'' ! n] = [''0123456789'' ! m]"
        using "1.prems" by (simp only: string_of_nat_small [OF small_n] string_of_nat_small [OF True])
      then show ?thesis
        using small_n True by (intro digit_inj) simp_all
    next
      case False
      then show ?thesis
        using len string_of_nat_small_length [OF small_n] string_of_nat_large_length [OF False]
        by simp
    qed
  next
    case large_n: False
    show ?thesis
    proof (cases "m < 10")
      case True
      then show ?thesis
        using len string_of_nat_small_length [OF True] string_of_nat_large_length [OF large_n]
        by simp
    next
      case False
      have eq: "string_of_nat (n div 10) @ [''0123456789'' ! (n mod 10)]
          = string_of_nat (m div 10) @ [''0123456789'' ! (m mod 10)]"
        using "1.prems"
        by (simp only: string_of_nat_large [OF large_n] string_of_nat_large [OF False])
      then have pre: "string_of_nat (n div 10) = string_of_nat (m div 10)"
        and dig: "''0123456789'' ! (n mod 10) = ''0123456789'' ! (m mod 10)"
        by simp_all
      have "n div 10 = m div 10"
        using "1.IH" [OF large_n pre] .
      moreover have "n mod 10 = m mod 10"
        using dig by (intro digit_inj) simp_all
      ultimately show ?thesis
        by (metis div_mult_mod_eq)
    qed
  qed
qed

lemma addNode_fresh_id:
  assumes "idsBelowCounter s" and "distinct (map node_id (nodes s))"
  shows "node_id (fst (addNode radius_of now px py lbl s)) \<notin> node_id ` set (nodes s)"
    and "distinct (map node_id (nodes (snd (addNode radius_of now px py lbl s))))"
    and "idsBelowCounter (snd (addNode radius_of now px py lbl s))"
proof -
  have new_id: "node_id (fst (addNode radius_of now px py lbl s))
      = ''node-'' @ string_of_nat (nodeCounter s + 1)"
    by (simp add: addNode_def Let_def newNode_def)
  have nodes': "nodes (snd (addNode radius_of now px py lbl s))
      = nodes s @ [fst (addNode radius_of now px py lbl s)]"
    and counter': "nodeCounter (snd (addNode radius_of now px py lbl s)) = nodeCounter s + 1"
    by (simp_all add: addNode_def Let_def)
  show fresh: "node_id (fst (addNode radius_of now px py lbl s)) \<notin> node_id ` set (nodes s)"
  proof
    assume "node_id (fst (addNode radius_of now px py lbl s)) \<in> node_id ` set (nodes s)"
    then obtain n where n: "n \<in> set (nodes s)"
        "node_id n = ''node-'' @ string_of_nat (nodeCounter s + 1)"
      unfolding new_id by force
    obtain k where k: "k \<le> nodeCounter s" "node_id n = ''node-'' @ string_of_nat k"
      using assms(1) n(1) unfolding idsBelowCounter_def by blast
    have "string_of_nat k = string_of_nat (nodeCounter s + 1)"
      using n(2) k(2) by simp
    then have "k = nodeCounter s + 1"
      by (rule string_of_nat_inj)
    then show False using k(1) by simp
  qed
  show "distinct (map node_id (nodes (snd (addNode radius_of now px py lbl s))))"
    using assms(2) fresh by (simp add: nodes')
  show "idsBelowCounter (snd (addNode radius_of now px py lbl s))"
    unfolding idsBelowCounter_def nodes' counter'
  proof
    fix n assume "n \<in> set (nodes s @ [fst (addNode radius_of now px py lbl s)])"
    then consider "n \<in> set (nodes s)" | "n = fst (addNode radius_of now px py lbl s)"
      by auto
    then show "\<exists>k. k \<le> nodeCounter s + 1 \<and> node_id n = ''node-'' @ string_of_nat k"
    proof cases
      case 1
      then obtain k where "k \<le> nodeCounter s" "node_id n = ''node-'' @ string_of_nat k"
        using assms(1) unfolding idsBelowCounter_def by blast
      then show ?thesis by (intro exI [of _ k]) simp
    next
      case 2
      then show ?thesis using new_id by (intro exI [of _ "nodeCounter s + 1"]) simp
    qed
  qed
qed

lemma idsBelowCounter_start:
  "idsBelowCounter initialState"
  "idsBelowCounter (spawnTestGraph radius_of clock s)"
proof -
  show "idsBelowCounter initialState"
    by (simp add: idsBelowCounter_def initialState_def)
  have zero: "''node-0'' = ''node-'' @ string_of_nat 0"
    by (simp add: string_of_nat_small)
  have ns: "nodes (spawnTestGraph radius_of clock s)
      = centerNode radius_of clock # map (satelliteNode radius_of clock) [1..<nNodes + 1]"
    and c: "nodeCounter (spawnTestGraph radius_of clock s) = nNodes"
    by (simp_all add: spawnTestGraph_def)
  show "idsBelowCounter (spawnTestGraph radius_of clock s)"
    unfolding idsBelowCounter_def c
  proof
    fix n assume "n \<in> set (nodes (spawnTestGraph radius_of clock s))"
    then consider "n = centerNode radius_of clock"
      | "n \<in> set (map (satelliteNode radius_of clock) [1..<nNodes + 1])"
      unfolding ns by auto
    then show "\<exists>k. k \<le> nNodes \<and> node_id n = ''node-'' @ string_of_nat k"
    proof cases
      case 1
      then show ?thesis
        using zero by (intro exI [of _ 0]) (simp add: centerNode_def)
    next
      case 2
      then obtain i where i: "i \<in> set [1..<nNodes + 1]" "n = satelliteNode radius_of clock i"
        by (auto simp only: set_map image_iff)
      have "i \<le> nNodes" using i(1) by auto
      then show ?thesis
        using i(2) by (intro exI [of _ i]) (simp add: satelliteNode_def Let_def)
    qed
  qed
qed

lemma string_of_nat_100: "string_of_nat 100 = ''100''"
  by (simp add: string_of_nat.simps)

lemma freshStart_fields:
  "edges freshStart = map (satelliteEdge (\<lambda>k. ''2025-01-01T00:00:00.000Z'')) [1..<101]"
  "edgeCounter freshStart = 100"
  by (simp_all add: freshStart_def spawnTestGraph_def nNodes_def)

lemma edgeDialogOnFreshStart_fields:
  "edges edgeDialogOnFreshStart = edges freshStart"
  "edgeCounter edgeDialogOnFreshStart = 100"
  "createEdgeName edgeDialogOnFreshStart = ''knows''"
  "pendingEdge edgeDialogOnFreshStart = Some (nodes freshStart ! 1, nodes freshStart ! 2)"
  by (simp_all add: edgeDialogOnFreshStart_def createEdge_def freshStart_fields)

text \<open>
  Claim C5 at a concrete run. The editor starts with the test graph (edges \<open>edge-1\<close> to
  \<open>edge-100\<close>, edge counter 100). The first edge created through the create-edge dialog
  gets its id from \<open>edgeCounter++\<close>, the value before the increment: \<open>edge-100\<close>, the
  id of an edge already in the graph. The edge ids are no longer pairwise distinct.
\<close>

theorem edge_id_reused_on_fresh_start:
  "length (edges edgeDialogOnFreshStart) = 100
   \<and> edge_id (edges edgeDialogOnFreshStart ! 99) = ''edge-100''
   \<and> length (edges (createEdgeFromDialog ''2025-01-02T00:00:00.000Z'' edgeDialogOnFreshStart)) = 101
   \<and> edge_id (edges (createEdgeFromDialog ''2025-01-02T00:00:00.000Z'' edgeDialogOnFreshStart) ! 100)
       = ''edge-100''
   \<and> \<not> distinct (map edge_id
          (edges (createEdgeFromDialog ''2025-01-02T00:00:00.000Z'' edgeDialogOnFreshStart)))"
proof -
  have tr: "trim ''knows'' \<noteq> []"
    by (simp add: trim_def js_whitespace_def)
  have es: "edges (createEdgeFromDialog ''2025-01-02T00:00:00.000Z'' edgeDialogOnFreshStart)
      = edges freshStart @
        [newEdge ''2025-01-02T00:00:00.000Z'' 100 (node_id (nodes freshStart ! 1))
           (node_id (nodes freshStart ! 2)) ''knows'']"
    using tr by (simp add: createEdgeFromDialog_def closeCreateEdgeDialog_def
        edgeDialogOnFreshStart_fields)
  have len: "length (edges freshStart) = 100"
    by (simp add: freshStart_fields)
  have old: "edge_id (edges freshStart ! 99) = ''edge-100''"
    by (simp add: freshStart_fields satelliteEdge_def string_of_nat_100)
  have new: "edge_id (newEdge ''2025-01-02T00:00:00.000Z'' 100 (node_id (nodes freshStart ! 1))
           (node_id (nodes freshStart ! 2)) ''knows'') = ''edge-100''"
    by (simp add: newEdge_def string_of_nat_100)
  have "99 < length (edges freshStart)"
    by (simp add: len)
  then have "map edge_id (edges freshStart) ! 99 \<in> set (map edge_id (edges freshStart))"
    by (simp only: nth_mem length_map)
  then have mem: "''edge-100'' \<in> set (map edge_id (edges freshStart))"
    using old len by (simp only: nth_map)
  show ?thesis
    using es len old new mem
    by (simp add: edgeDialogOnFreshStart_fields nth_append)
qed

section \<open>The local repulsion propagator\<close>

lemma distance_zero [simp]: "distance 0 0 = 0"
  by (simp add: distance_def)

lemma datum_simps [simp]:
  "datum (InArray i) ns = ns ! i" "datum (Detached n) ns = n"
  by (simp_all add: datum_def)

lemma validDatum_simps [simp]:
  "validDatum (InArray i) ns \<longleftrightarrow> i < length ns" "validDatum (Detached n) ns"
  by (simp_all add: validDatum_def)

lemma repelStep_eq:
  "repelStep m d i (ns, ps) =
     (ns[i := repelled m (datum d ns) (ns ! i)],
      if pushedFurther m (datum d ns) (ns ! i) then ps @ [i] else ps)"
  by (simp add: repelStep_def repelled_def pushedFurther_def inRange_def Let_def)

lemma repelled_self [simp]: "repelled m dn dn = dn"
  by (simp add: repelled_def inRange_def)

lemma update_map_take_drop:
  assumes "k < length xs"
  shows "(map f (take k xs) @ drop k xs)[k := f (xs ! k)]
           = map f (take (Suc k) xs) @ drop (Suc k) xs"
proof -
  have "(map f (take k xs) @ drop k xs)[k := f (xs ! k)]
          = map f (take k xs) @ (drop k xs)[0 := f (xs ! k)]"
    using assms by (simp add: list_update_append)
  also have "(drop k xs)[0 := f (xs ! k)] = f (xs ! k) # drop (Suc k) xs"
    using assms by (simp add: Cons_nth_drop_Suc [symmetric])
  finally show ?thesis
    using assms by (simp add: take_Suc_conv_app_nth)
qed

lemma repel_prefix:
  assumes "validDatum d ns"
  shows "k \<le> length ns \<Longrightarrow>
     fold (repelStep m d) [0..<k] (ns, [])
       = (map (repelled m (datum d ns)) (take k ns) @ drop k ns,
          filter (\<lambda>i. pushedFurther m (datum d ns) (ns ! i)) [0..<k])"
proof (induction k)
  case 0
  then show ?case by simp
next
  case (Suc k)
  let ?cur = "map (repelled m (datum d ns)) (take k ns) @ drop k ns"
  have k: "k < length ns" using Suc.prems by simp
  have at_d: "datum d ?cur = datum d ns"
  proof (cases d)
    case (InArray j)
    then show ?thesis
      using assms k by (cases "j < k") (simp_all add: nth_append)
  next
    case (Detached n)
    then show ?thesis by simp
  qed
  have at_k: "?cur ! k = ns ! k"
    using k by (simp add: nth_append)
  have "fold (repelStep m d) [0..<Suc k] (ns, [])
          = repelStep m d k (?cur, filter (\<lambda>i. pushedFurther m (datum d ns) (ns ! i)) [0..<k])"
    using Suc.IH k by simp
  also have "\<dots> = (?cur[k := repelled m (datum d ns) (ns ! k)],
       if pushedFurther m (datum d ns) (ns ! k)
       then filter (\<lambda>i. pushedFurther m (datum d ns) (ns ! i)) [0..<k] @ [k]
       else filter (\<lambda>i. pushedFurther m (datum d ns) (ns ! i)) [0..<k])"
    by (simp only: repelStep_eq at_d at_k)
  finally show ?case
    using k by (simp add: update_map_take_drop)
qed

lemma repelPass_eq:
  assumes "validDatum d ns"
  shows "repelPass m d ns
    = (map (repelled m (datum d ns)) ns,
       filter (\<lambda>i. pushedFurther m (datum d ns) (ns ! i)) [0..<length ns])"
  using repel_prefix [OF assms, of "length ns" m] by (simp add: repelPass_def)

lemma callWithin_root: "callWithin depth m (depth, m, d)"
  by (simp add: callWithin_def)

lemma callWithin_step:
  assumes "callWithin (Suc depth) (m * (6 / 10)) c" and "depth < maxRecursionDepth"
  shows "callWithin depth m c"
proof -
  from assms(1) have le: "Suc depth \<le> fst c"
    and up: "fst c \<le> max (Suc depth) maxRecursionDepth"
    and mul: "fst (snd c) = m * (6 / 10) * (6 / 10) ^ (fst c - Suc depth)"
    unfolding callWithin_def by blast+
  have ex: "Suc (fst c - Suc depth) = fst c - depth"
    using le by arith
  have "fst (snd c) = m * ((6 / 10) * (6 / 10) ^ (fst c - Suc depth))"
    using mul by (simp only: mult.assoc)
  also have "\<dots> = m * (6 / 10) ^ Suc (fst c - Suc depth)"
    by (simp only: power_Suc)
  finally have mul': "fst (snd c) = m * (6 / 10) ^ (fst c - depth)"
    by (simp only: ex)
  have lo: "depth \<le> fst c" using le by arith
  have hi: "fst c \<le> max depth maxRecursionDepth"
    using up assms(2) by arith
  show ?thesis
    unfolding callWithin_def using lo hi mul' by blast
qed

lemma fold_calls:
  assumes "\<And>j x. j \<in> set js \<Longrightarrow> \<exists>ext. snd (g j x) = snd x @ ext \<and> list_all Q ext"
  shows "\<exists>ext. snd (fold g js x) = snd x @ ext \<and> list_all Q ext"
  using assms
proof (induction js arbitrary: x)
  case Nil
  then show ?case by simp
next
  case (Cons j js)
  obtain e1 where e1: "snd (g j x) = snd x @ e1" "list_all Q e1"
    using Cons.prems [of j x] by auto
  obtain e2 where e2: "snd (fold g js (g j x)) = snd (g j x) @ e2" "list_all Q e2"
    using Cons.IH [of "g j x"] Cons.prems by auto
  have "snd (fold g (j # js) x) = snd x @ (e1 @ e2)"
    using e1 e2 by simp
  moreover have "list_all Q (e1 @ e2)"
    using e1 e2 by simp
  ultimately show ?case by blast
qed

lemma calls_extend:
  "\<exists>ext. snd (applyRepulsionForce_calls depth m d st) = snd st @ ext
         \<and> list_all (callWithin depth m) ext"
proof (induction depth m d st rule: applyRepulsionForce_calls.induct)
  case (1 depth m d st)
  show ?case
  proof (cases "depth \<ge> maxRecursionDepth")
    case True
    then have "snd (applyRepulsionForce_calls depth m d st) = snd st @ [(depth, m, d)]"
      by (simp add: applyRepulsionForce_calls.simps [of depth m d st])
    then show ?thesis
      using callWithin_root by auto
  next
    case False
    let ?g = "\<lambda>j. applyRepulsionForce_calls (depth + 1) (m * (6 / 10)) (InArray j)"
    let ?pushed = "snd (repelPass m d (fst st))"
    let ?x = "(fst (repelPass m d (fst st)), snd st @ [(depth, m, d)])"
    have unfold: "applyRepulsionForce_calls depth m d st = fold ?g ?pushed ?x"
      using False by (simp add: applyRepulsionForce_calls.simps [of depth m d st])
    have "\<exists>ext. snd (fold ?g ?pushed ?x) = snd ?x @ ext
            \<and> list_all (callWithin (depth + 1) (m * (6 / 10))) ext"
    proof (rule fold_calls)
      fix j x assume "j \<in> set ?pushed"
      then show "\<exists>ext. snd (?g j x) = snd x @ ext
                   \<and> list_all (callWithin (depth + 1) (m * (6 / 10))) ext"
        using "1.IH" [OF refl False] by blast
    qed
    then obtain ext where ext: "snd (fold ?g ?pushed ?x) = snd ?x @ ext"
        "list_all (callWithin (depth + 1) (m * (6 / 10))) ext"
      by blast
    have "list_all (callWithin depth m) ext"
      using ext(2) False by (auto simp: list_all_iff intro: callWithin_step)
    then have "list_all (callWithin depth m) ((depth, m, d) # ext)"
      using callWithin_root by simp
    moreover have "snd (applyRepulsionForce_calls depth m d st) = snd st @ (depth, m, d) # ext"
      using unfold ext(1) by simp
    ultimately show ?thesis by blast
  qed
qed

lemma pushed_moved:
  assumes "validDatum d ns"
  shows "list_all (\<lambda>j. j < length ns
            \<and> distance (node_x (fst (repelPass m d ns) ! j) - node_x (ns ! j))
                       (node_y (fst (repelPass m d ns) ! j) - node_y (ns ! j)) > 1)
          (snd (repelPass m d ns))"
  using assms by (simp add: repelPass_eq list_all_iff pushedFurther_def)

text \<open>
  Claim C7. For every node array and every call of the propagator, every call made in
  the recursion has a depth of at most \<open>maxRecursionDepth\<close> and, started at depth 0 with
  multiplier 1, the multiplier \<open>(6/10) ^ depth\<close>; a call at the cap returns at once, a
  call below it recurses, one level deeper and with the multiplier times 6/10 < 1, on
  exactly the nodes that its pass moved by more than one pixel. The function is total:
  its definition is accepted with the measure \<open>maxRecursionDepth - depth\<close>, so every
  call terminates.
\<close>

theorem repulsion_depth_bounded:
  "list_all (\<lambda>c. fst c \<le> maxRecursionDepth \<and> fst (snd c) = (6 / 10) ^ fst c)
      (snd (applyRepulsionForce_calls 0 1 d (ns, [])))
   \<and> list_all (callWithin depth m)
        (drop (length cs) (snd (applyRepulsionForce_calls depth m d (ns, cs))))
   \<and> applyRepulsionForce_calls depth m d (ns, cs)
       = (if depth \<ge> maxRecursionDepth then (ns, cs @ [(depth, m, d)])
          else fold (\<lambda>pushedNode. applyRepulsionForce_calls (depth + 1) (m * (6 / 10)) (InArray pushedNode))
                 (snd (repelPass m d ns)) (fst (repelPass m d ns), cs @ [(depth, m, d)]))
   \<and> (validDatum d ns \<longrightarrow>
        list_all (\<lambda>j. j < length ns
            \<and> distance (node_x (fst (repelPass m d ns) ! j) - node_x (ns ! j))
                       (node_y (fst (repelPass m d ns) ! j) - node_y (ns ! j)) > 1)
          (snd (repelPass m d ns)))
   \<and> (6 / 10 :: real) < 1"
proof -
  obtain e0 where e0: "snd (applyRepulsionForce_calls 0 1 d (ns, [])) = e0"
      "list_all (callWithin 0 1) e0"
    using calls_extend [of 0 1 d "(ns, [])"] by auto
  have top: "list_all (\<lambda>c. fst c \<le> maxRecursionDepth \<and> fst (snd c) = (6 / 10) ^ fst c)
      (snd (applyRepulsionForce_calls 0 1 d (ns, [])))"
    using e0 by (simp add: list_all_iff callWithin_def)
  obtain e1 where e1: "snd (applyRepulsionForce_calls depth m d (ns, cs)) = cs @ e1"
      "list_all (callWithin depth m) e1"
    using calls_extend [of depth m d "(ns, cs)"] by auto
  have gen: "list_all (callWithin depth m)
        (drop (length cs) (snd (applyRepulsionForce_calls depth m d (ns, cs))))"
    using e1 by simp
  have unfold: "applyRepulsionForce_calls depth m d (ns, cs)
       = (if depth \<ge> maxRecursionDepth then (ns, cs @ [(depth, m, d)])
          else fold (\<lambda>pushedNode. applyRepulsionForce_calls (depth + 1) (m * (6 / 10)) (InArray pushedNode))
                 (snd (repelPass m d ns)) (fst (repelPass m d ns), cs @ [(depth, m, d)]))"
    by (simp add: applyRepulsionForce_calls.simps [of depth m d "(ns, cs)"])
  show ?thesis
    using top gen unfold pushed_moved [of d ns m] by simp
qed

lemma distance_axis: "distance a 0 = \<bar>a\<bar>"
  by (simp add: distance_def)

lemma upt_4: "[0..<4] = [0, 1, 2, 3]"
  by code_simp

lemma threeOnALine_pass:
  "length threeOnALine = 4"
  "map node_x (fst (repelPass 1 (InArray 0) threeOnALine)) = [0, 31, 100, 0]"
  "map node_y (fst (repelPass 1 (InArray 0) threeOnALine)) = [0, 0, 0, 0]"
  "snd (repelPass 1 (InArray 0) threeOnALine) = [1]"
proof -
  show len: "length threeOnALine = 4"
    by (simp add: threeOnALine_def)
  have d: "validDatum (InArray 0) threeOnALine" by (simp add: len)
  have r1: "repelled 1 (threeOnALine ! 0) (threeOnALine ! 1) = exampleNode ''node-2'' 31 0"
    by (simp add: threeOnALine_def exampleNode_def repelled_def inRange_def distance_axis
        repelDistance_def repelStrength_def)
  have r2: "repelled 1 (threeOnALine ! 0) (threeOnALine ! 2) = exampleNode ''node-3'' 100 0"
    by (simp add: threeOnALine_def exampleNode_def repelled_def inRange_def distance_axis
        repelDistance_def repelStrength_def)
  have r3: "repelled 1 (threeOnALine ! 0) (threeOnALine ! 3) = exampleNode ''node-4'' 0 0"
    by (simp add: threeOnALine_def exampleNode_def repelled_def inRange_def distance_axis
        repelDistance_def repelStrength_def)
  have r0: "repelled 1 (threeOnALine ! 0) (threeOnALine ! 0) = exampleNode ''node-1'' 0 0"
    by (simp add: threeOnALine_def)
  have all: "map (repelled 1 (threeOnALine ! 0)) threeOnALine
      = [exampleNode ''node-1'' 0 0, exampleNode ''node-2'' 31 0,
         exampleNode ''node-3'' 100 0, exampleNode ''node-4'' 0 0]"
    using r0 r1 r2 r3 by (simp add: threeOnALine_def)
  show "map node_x (fst (repelPass 1 (InArray 0) threeOnALine)) = [0, 31, 100, 0]"
    by (simp add: repelPass_eq [OF d] all) (simp add: exampleNode_def)
  show "map node_y (fst (repelPass 1 (InArray 0) threeOnALine)) = [0, 0, 0, 0]"
    by (simp add: repelPass_eq [OF d] all) (simp add: exampleNode_def)
  have p0: "\<not> pushedFurther 1 (threeOnALine ! 0) (threeOnALine ! 0)"
    by (simp add: pushedFurther_def inRange_def)
  have p1: "pushedFurther 1 (threeOnALine ! 0) (threeOnALine ! 1)"
    unfolding pushedFurther_def r1
    by (simp add: threeOnALine_def exampleNode_def inRange_def distance_axis repelDistance_def)
  have p2: "\<not> pushedFurther 1 (threeOnALine ! 0) (threeOnALine ! 2)"
    by (simp add: pushedFurther_def inRange_def threeOnALine_def exampleNode_def distance_axis
        repelDistance_def)
  have p3: "\<not> pushedFurther 1 (threeOnALine ! 0) (threeOnALine ! 3)"
    by (simp add: pushedFurther_def inRange_def threeOnALine_def exampleNode_def)
  show "snd (repelPass 1 (InArray 0) threeOnALine) = [1]"
    using p0 p1 p2 p3 by (simp add: repelPass_eq [OF d] len upt_4)
qed

theorem repulsion_depth_bounded_witness:
  "0 < length threeOnALine
   \<and> snd (repelPass 1 (InArray 0) threeOnALine) = [1]
   \<and> 1 < length threeOnALine
   \<and> distance (node_x (fst (repelPass 1 (InArray 0) threeOnALine) ! 1) - node_x (threeOnALine ! 1))
               (node_y (fst (repelPass 1 (InArray 0) threeOnALine) ! 1) - node_y (threeOnALine ! 1)) > 1
   \<and> list_all (\<lambda>c. fst c \<le> maxRecursionDepth \<and> fst (snd c) = (6 / 10) ^ fst c)
        (snd (applyRepulsionForce_calls 0 1 (InArray 0) (threeOnALine, [])))
   \<and> applyRepulsionForce_calls 0 1 (InArray 0) (threeOnALine, [])
       = applyRepulsionForce_calls 1 (6 / 10) (InArray 1)
           (fst (repelPass 1 (InArray 0) threeOnALine), [(0, 1, InArray 0)])
   \<and> applyRepulsionForce_calls 100 1 (InArray 0) (threeOnALine, [])
       = (threeOnALine, [(100, 1, InArray 0)])"
proof -
  have d: "0 < length threeOnALine"
    by (simp add: threeOnALine_pass)
  show ?thesis
    using d repulsion_depth_bounded [of "InArray 0" threeOnALine 0 1 "[]"]
      repulsion_depth_bounded [of "InArray 0" threeOnALine 100 1 "[]"]
    by (simp add: threeOnALine_pass maxRecursionDepth_def)
qed

lemma fold_fst_indep:
  fixes g :: "'a \<Rightarrow> 'b \<times> 'c \<Rightarrow> 'b \<times> 'c"
  assumes "\<And>j x y. j \<in> set js \<Longrightarrow> fst x = fst y \<Longrightarrow> fst (g j x) = fst (g j y)"
    and "fst x = fst y"
  shows "fst (fold g js x) = fst (fold g js y)"
  using assms
proof (induction js arbitrary: x y)
  case Nil
  then show ?case by simp
next
  case (Cons j js)
  have step: "fst (g j x) = fst (g j y)"
    by (rule Cons.prems(1)) (simp_all add: Cons.prems(2))
  have "fst (fold g js (g j x)) = fst (fold g js (g j y))"
  proof (rule Cons.IH)
    fix i and x' y' :: "'b \<times> 'c"
    assume "i \<in> set js" and "fst x' = fst y'"
    then show "fst (g i x') = fst (g i y')"
      by (intro Cons.prems(1)) simp_all
  qed (rule step)
  then show ?case by simp
qed

text \<open>The node array that a call returns does not depend on the call list.\<close>

lemma calls_fst_indep:
  "fst st = fst st' \<Longrightarrow>
     fst (applyRepulsionForce_calls depth m d st) = fst (applyRepulsionForce_calls depth m d st')"
proof (induction depth m d st arbitrary: st' rule: applyRepulsionForce_calls.induct)
  case (1 depth m d st)
  show ?case
  proof (cases "depth \<ge> maxRecursionDepth")
    case True
    then show ?thesis
      unfolding applyRepulsionForce_calls.simps [of depth m d st]
        applyRepulsionForce_calls.simps [of depth m d st'] Let_def
      using "1.prems" by (simp only: if_True fst_conv)
  next
    case False
    let ?g = "\<lambda>j. applyRepulsionForce_calls (depth + 1) (m * (6 / 10)) (InArray j)"
    let ?pushed = "snd (repelPass m d (fst st))"
    have "fst (fold ?g ?pushed (fst (repelPass m d (fst st)), snd st @ [(depth, m, d)]))
        = fst (fold ?g ?pushed (fst (repelPass m d (fst st)), snd st' @ [(depth, m, d)]))"
    proof (rule fold_fst_indep)
      fix j and x y :: "Node list \<times> Call list"
      assume "j \<in> set ?pushed" and "fst x = fst y"
      then show "fst (?g j x) = fst (?g j y)"
        by (rule "1.IH" [OF refl False])
    qed (simp only: fst_conv)
    then show ?thesis
      unfolding applyRepulsionForce_calls.simps [of depth m d st]
        applyRepulsionForce_calls.simps [of depth m d st'] Let_def "1.prems" [symmetric]
      using False by (simp only: if_False)
  qed
qed

lemma fold_calls_fst:
  "fst (fold (\<lambda>j. applyRepulsionForce_calls depth m (InArray j)) js (ns, cs))
     = fold (\<lambda>j. applyRepulsionForce depth m (InArray j)) js ns"
proof (induction js arbitrary: ns cs)
  case Nil
  then show ?case by simp
next
  case (Cons j js)
  let ?x = "applyRepulsionForce_calls depth m (InArray j) (ns, cs)"
  have "fst ?x = applyRepulsionForce depth m (InArray j) ns"
    unfolding applyRepulsionForce_def by (rule calls_fst_indep) simp
  moreover have "fst (fold (\<lambda>j. applyRepulsionForce_calls depth m (InArray j)) js ?x)
      = fold (\<lambda>j. applyRepulsionForce depth m (InArray j)) js (fst ?x)"
    using Cons.IH [of "fst ?x" "snd ?x"] by simp
  ultimately show ?case by simp
qed

text \<open>The propagator without the call list: the recursion as the source has it.\<close>

lemma applyRepulsionForce_unfold:
  "applyRepulsionForce depth m d ns
     = (if depth \<ge> maxRecursionDepth then ns
        else fold (\<lambda>pushedNode. applyRepulsionForce (depth + 1) (m * (6 / 10)) (InArray pushedNode))
               (snd (repelPass m d ns)) (fst (repelPass m d ns)))"
  by (simp add: applyRepulsionForce_def [of depth m d ns]
      applyRepulsionForce_calls.simps [of depth m d "(ns, [])"] fold_calls_fst)

lemma applyRepulsionForce_no_push:
  assumes "validDatum d ns" and "depth < maxRecursionDepth"
    and "filter (\<lambda>i. pushedFurther m (datum d ns) (ns ! i)) [0..<length ns] = []"
  shows "applyRepulsionForce depth m d ns = map (repelled m (datum d ns)) ns"
  using assms(2,3)
  by (simp add: applyRepulsionForce_unfold [of depth m d ns] repelPass_eq [OF assms(1)])

lemma exampleNode_fields [simp]:
  "node_id (exampleNode i px py) = i"
  "node_x (exampleNode i px py) = px"
  "node_y (exampleNode i px py) = py"
  "place p (exampleNode i px py) = exampleNode i (fst p) (snd p)"
  by (simp_all add: exampleNode_def place_def)

lemma upt_2: "[0..<2] = [0, 1]"
  by code_simp

lemma repelled_on_axis:
  "repelled m (exampleNode i px 0) (exampleNode j qx 0)
     = (if \<bar>qx - px\<bar> < repelDistance \<and> \<bar>qx - px\<bar> > 0
        then exampleNode j
               (qx + (qx - px) * (repelStrength * m * (repelDistance - \<bar>qx - px\<bar>) / \<bar>qx - px\<bar>)) 0
        else exampleNode j qx 0)"
  by (simp add: repelled_def inRange_def distance_axis exampleNode_def Let_def)

lemma inRange_on_axis:
  "inRange (exampleNode i px 0) (exampleNode j qx 0)
     \<longleftrightarrow> \<bar>qx - px\<bar> < repelDistance \<and> \<bar>qx - px\<bar> > 0"
  by (simp add: inRange_def distance_axis)

lemma nearEdgeLine_first_pass:
  "repelPass 1 (InArray 0) nearEdgeLine
     = ([exampleNode ''node-1'' 0 0, exampleNode ''node-2'' (153 / 2) 0,
         exampleNode ''node-3'' (309 / 2) 0, exampleNode ''node-4'' 0 0], [1])"
proof -
  have v: "validDatum (InArray 0) nearEdgeLine"
    by (simp add: nearEdgeLine_def)
  show ?thesis
    unfolding repelPass_eq [OF v]
    by (simp add: nearEdgeLine_def upt_4 pushedFurther_def repelled_on_axis inRange_on_axis
        distance_axis repelDistance_def repelStrength_def)
qed

lemma nearEdgeLine_second_pass:
  "repelPass (6 / 10) (InArray 1)
       [exampleNode ''node-1'' 0 0, exampleNode ''node-2'' (153 / 2) 0,
        exampleNode ''node-3'' (309 / 2) 0, exampleNode ''node-4'' 0 0]
     = ([exampleNode ''node-1'' (- (63 / 100)) 0, exampleNode ''node-2'' (153 / 2) 0,
         exampleNode ''node-3'' (7743 / 50) 0, exampleNode ''node-4'' (- (63 / 100)) 0], [])"
proof -
  have v: "validDatum (InArray 1)
       [exampleNode ''node-1'' 0 0, exampleNode ''node-2'' (153 / 2) 0,
        exampleNode ''node-3'' (309 / 2) 0, exampleNode ''node-4'' 0 0]"
    by simp
  show ?thesis
    unfolding repelPass_eq [OF v]
    by (simp add: upt_4 pushedFurther_def repelled_on_axis inRange_on_axis
        distance_axis repelDistance_def repelStrength_def)
qed

lemma nearEdgeLine_invocation:
  "applyRepulsionForce 0 1 (InArray 0) nearEdgeLine
     = [exampleNode ''node-1'' (- (63 / 100)) 0, exampleNode ''node-2'' (153 / 2) 0,
        exampleNode ''node-3'' (7743 / 50) 0, exampleNode ''node-4'' (- (63 / 100)) 0]"
proof -
  let ?after = "[exampleNode ''node-1'' 0 0, exampleNode ''node-2'' (153 / 2) 0,
        exampleNode ''node-3'' (309 / 2) 0, exampleNode ''node-4'' 0 0]"
  have "applyRepulsionForce 0 1 (InArray 0) nearEdgeLine
      = applyRepulsionForce 1 (6 / 10) (InArray 1) ?after"
    by (simp add: applyRepulsionForce_unfold [of 0 1 "InArray 0" nearEdgeLine]
        nearEdgeLine_first_pass maxRecursionDepth_def)
  also have "\<dots> = fst (repelPass (6 / 10) (InArray 1) ?after)"
    by (subst applyRepulsionForce_unfold)
       (simp only: nearEdgeLine_second_pass, simp add: maxRecursionDepth_def)
  finally show ?thesis
    by (simp only: nearEdgeLine_second_pass fst_conv)
qed

text \<open>
  Claim C8, as stated, at a concrete invocation: four nodes on a line, the moved node M at
  0, the others at 75, at 154.5 and at 0, and the propagator called for M as \<open>handleDrag\<close>
  calls it (depth 0, multiplier 1). The pass for M moves the node at 75 by
  \<open>0.3 * (80 - 75) / 75 * 75 = 1.5\<close>, which is more than one pixel, so the same invocation
  goes on with a pass for that node, and this pass moves the node 154.5 away from M, the
  node coincident with M, and M itself.
\<close>

theorem repulsion_invocation_counterexample:
  "map node_x nearEdgeLine = [0, 75, 309 / 2, 0]
   \<and> map node_y nearEdgeLine = [0, 0, 0, 0]
   \<and> distance (node_x (nearEdgeLine ! 2) - node_x (nearEdgeLine ! 0))
               (node_y (nearEdgeLine ! 2) - node_y (nearEdgeLine ! 0)) \<ge> repelDistance
   \<and> distance (node_x (nearEdgeLine ! 3) - node_x (nearEdgeLine ! 0))
               (node_y (nearEdgeLine ! 3) - node_y (nearEdgeLine ! 0)) = 0
   \<and> map node_x (applyRepulsionForce 0 1 (InArray 0) nearEdgeLine)
       = [- (63 / 100), 153 / 2, 7743 / 50, - (63 / 100)]
   \<and> map node_y (applyRepulsionForce 0 1 (InArray 0) nearEdgeLine) = [0, 0, 0, 0]
   \<and> applyRepulsionForce 0 1 (InArray 0) nearEdgeLine ! 2 \<noteq> nearEdgeLine ! 2
   \<and> applyRepulsionForce 0 1 (InArray 0) nearEdgeLine ! 3 \<noteq> nearEdgeLine ! 3"
proof -
  have before: "map node_x nearEdgeLine = [0, 75, 309 / 2, 0]"
    "map node_y nearEdgeLine = [0, 0, 0, 0]"
    by (simp_all add: nearEdgeLine_def)
  have far: "distance (node_x (nearEdgeLine ! 2) - node_x (nearEdgeLine ! 0))
               (node_y (nearEdgeLine ! 2) - node_y (nearEdgeLine ! 0)) \<ge> repelDistance"
    by (simp add: nearEdgeLine_def distance_axis repelDistance_def)
  have on: "distance (node_x (nearEdgeLine ! 3) - node_x (nearEdgeLine ! 0))
               (node_y (nearEdgeLine ! 3) - node_y (nearEdgeLine ! 0)) = 0"
    by (simp add: nearEdgeLine_def)
  have after: "map node_x (applyRepulsionForce 0 1 (InArray 0) nearEdgeLine)
       = [- (63 / 100), 153 / 2, 7743 / 50, - (63 / 100)]"
    "map node_y (applyRepulsionForce 0 1 (InArray 0) nearEdgeLine) = [0, 0, 0, 0]"
    unfolding nearEdgeLine_invocation by simp_all
  have moved: "applyRepulsionForce 0 1 (InArray 0) nearEdgeLine ! 2 \<noteq> nearEdgeLine ! 2"
    "applyRepulsionForce 0 1 (InArray 0) nearEdgeLine ! 3 \<noteq> nearEdgeLine ! 3"
    unfolding nearEdgeLine_invocation by (simp_all add: nearEdgeLine_def exampleNode_def)
  show ?thesis
    using before far on after moved by (intro conjI)
qed

text \<open>
  Claim C8, amended: the claim holds for one pass, not for the invocation. When the
  propagator is called for the node \<open>d\<close> with multiplier \<open>m\<close>, its pass over the nodes
  (the loop \<open>nodes.forEach\<close> of that call) leaves the node \<open>i\<close> at distance \<open>gap\<close> from
  \<open>d\<close> as follows: if \<open>0 < gap < repelDistance\<close> the node is moved along the offset
  \<open>(dx, dy)\<close> from \<open>d\<close> by \<open>repelStrength * m * (repelDistance - gap) / gap\<close> times the
  offset, and nothing else of it changes; at \<open>gap = 0\<close> or \<open>gap \<ge> repelDistance\<close> the
  pass does not touch the node. The pass collects the nodes in range that it moved by
  more than one pixel. Below the depth cap the invocation is this pass followed by an
  invocation for each collected node, in the order of the array, one level deeper and
  with the multiplier times 6/10, each working on the array as the one before left it;
  at the cap the invocation changes nothing.
\<close>

theorem repulsion_linear_falloff:
  assumes "validDatum d ns" and "i < length ns"
    and "dx = node_x (ns ! i) - node_x (datum d ns)"
    and "dy = node_y (ns ! i) - node_y (datum d ns)"
    and "gap = distance dx dy"
  shows "fst (repelPass m d ns) ! i
      = (if 0 < gap \<and> gap < repelDistance
         then (ns ! i)\<lparr>node_x := node_x (ns ! i) + dx * (repelStrength * m * (repelDistance - gap) / gap),
                       node_y := node_y (ns ! i) + dy * (repelStrength * m * (repelDistance - gap) / gap)\<rparr>
         else ns ! i)
    \<and> length (fst (repelPass m d ns)) = length ns
    \<and> snd (repelPass m d ns)
        = filter (\<lambda>j. pushedFurther m (datum d ns) (ns ! j)) [0..<length ns]
    \<and> applyRepulsionForce depth m d ns
        = (if depth \<ge> maxRecursionDepth then ns
           else fold (\<lambda>pushedNode. applyRepulsionForce (depth + 1) (m * (6 / 10)) (InArray pushedNode))
                  (snd (repelPass m d ns)) (fst (repelPass m d ns)))"
proof -
  have one: "fst (repelPass m d ns) ! i = repelled m (datum d ns) (ns ! i)"
    using assms(1,2) by (simp add: repelPass_eq)
  have ir: "inRange (datum d ns) (ns ! i) \<longleftrightarrow> 0 < gap \<and> gap < repelDistance"
    unfolding assms(3-5) inRange_def by blast
  have r: "repelled m (datum d ns) (ns ! i)
      = (if inRange (datum d ns) (ns ! i)
         then (ns ! i)\<lparr>node_x := node_x (ns ! i) + dx * (repelStrength * m * (repelDistance - gap) / gap),
                       node_y := node_y (ns ! i) + dy * (repelStrength * m * (repelDistance - gap) / gap)\<rparr>
         else ns ! i)"
    unfolding assms(3-5) repelled_def Let_def by (rule refl)
  have len: "length (fst (repelPass m d ns)) = length ns"
    using assms(1) by (simp add: repelPass_eq)
  have pushed: "snd (repelPass m d ns)
        = filter (\<lambda>j. pushedFurther m (datum d ns) (ns ! j)) [0..<length ns]"
    using assms(1) by (simp add: repelPass_eq)
  have first: "fst (repelPass m d ns) ! i
      = (if 0 < gap \<and> gap < repelDistance
         then (ns ! i)\<lparr>node_x := node_x (ns ! i) + dx * (repelStrength * m * (repelDistance - gap) / gap),
                       node_y := node_y (ns ! i) + dy * (repelStrength * m * (repelDistance - gap) / gap)\<rparr>
         else ns ! i)"
    by (simp only: one r ir)
  show ?thesis
    using first len pushed applyRepulsionForce_unfold [of depth m d ns] by (intro conjI)
qed

theorem repulsion_linear_falloff_witness:
  "validDatum (InArray 0) threeOnALine \<and> 1 < length threeOnALine
   \<and> 2 < length threeOnALine \<and> 3 < length threeOnALine
   \<and> distance (node_x (threeOnALine ! 1) - node_x (datum (InArray 0) threeOnALine))
               (node_y (threeOnALine ! 1) - node_y (datum (InArray 0) threeOnALine)) = 10
   \<and> distance (node_x (threeOnALine ! 2) - node_x (datum (InArray 0) threeOnALine))
               (node_y (threeOnALine ! 2) - node_y (datum (InArray 0) threeOnALine)) = 100
   \<and> distance (node_x (threeOnALine ! 3) - node_x (datum (InArray 0) threeOnALine))
               (node_y (threeOnALine ! 3) - node_y (datum (InArray 0) threeOnALine)) = 0
   \<and> fst (repelPass 1 (InArray 0) threeOnALine) ! 1 = exampleNode ''node-2'' 31 0
   \<and> fst (repelPass 1 (InArray 0) threeOnALine) ! 2 = threeOnALine ! 2
   \<and> fst (repelPass 1 (InArray 0) threeOnALine) ! 3 = threeOnALine ! 3
   \<and> applyRepulsionForce maxRecursionDepth 1 (InArray 0) threeOnALine = threeOnALine"
proof -
  have v: "validDatum (InArray 0) threeOnALine"
    by (simp add: threeOnALine_def)
  have len: "1 < length threeOnALine" "2 < length threeOnALine" "3 < length threeOnALine"
    by (simp_all add: threeOnALine_def)
  have d1: "distance (node_x (threeOnALine ! 1) - node_x (datum (InArray 0) threeOnALine))
               (node_y (threeOnALine ! 1) - node_y (datum (InArray 0) threeOnALine)) = 10"
    by (simp add: threeOnALine_def distance_axis)
  have d2: "distance (node_x (threeOnALine ! 2) - node_x (datum (InArray 0) threeOnALine))
               (node_y (threeOnALine ! 2) - node_y (datum (InArray 0) threeOnALine)) = 100"
    by (simp add: threeOnALine_def distance_axis)
  have d3: "distance (node_x (threeOnALine ! 3) - node_x (datum (InArray 0) threeOnALine))
               (node_y (threeOnALine ! 3) - node_y (datum (InArray 0) threeOnALine)) = 0"
    by (simp add: threeOnALine_def distance_axis)
  have n1: "fst (repelPass 1 (InArray 0) threeOnALine) ! 1 = exampleNode ''node-2'' 31 0"
    using repulsion_linear_falloff [OF v len(1) refl refl d1 [symmetric],
        where m = 1 and depth = 0, THEN conjunct1]
    by (simp add: repelDistance_def repelStrength_def threeOnALine_def exampleNode_def)
  have n2: "fst (repelPass 1 (InArray 0) threeOnALine) ! 2 = threeOnALine ! 2"
    using repulsion_linear_falloff [OF v len(2) refl refl d2 [symmetric],
        where m = 1 and depth = 0, THEN conjunct1]
    by (simp add: repelDistance_def)
  have n3: "fst (repelPass 1 (InArray 0) threeOnALine) ! 3 = threeOnALine ! 3"
    using repulsion_linear_falloff [OF v len(3) refl refl d3 [symmetric],
        where m = 1 and depth = 0, THEN conjunct1]
    by simp
  have cap: "applyRepulsionForce maxRecursionDepth 1 (InArray 0) threeOnALine = threeOnALine"
    using repulsion_linear_falloff [OF v len(3) refl refl d3 [symmetric],
        where m = 1 and depth = maxRecursionDepth,
        THEN conjunct2, THEN conjunct2, THEN conjunct2]
    by simp
  show ?thesis
    using v len d1 d2 d3 n1 n2 n3 cap by (intro conjI)
qed
section \<open>Dragging several selected nodes\<close>

lemma map_of_replace:
  "map_of (map (\<lambda>kv. if fst kv = k then (k, v) else kv) m) k'
     = (if k' = k \<and> k \<in> fst ` set m then Some v else map_of m k')"
  by (induction m) force+

lemma map_of_map_set: "map_of (map_set k v m) = (map_of m)(k \<mapsto> v)"
proof (rule ext)
  fix k'
  show "map_of (map_set k v m) k' = ((map_of m)(k \<mapsto> v)) k'"
  proof (cases "k \<in> fst ` set m")
    case True
    then show ?thesis
      by (auto simp: map_set_def map_of_replace)
  next
    case False
    then have "map_of m k = None"
      by (simp add: map_of_eq_None_iff)
    then show ?thesis
      using False by (auto simp: map_set_def map_add_def split: option.split)
  qed
qed

lemma offsets_other_key:
  "k \<notin> node_id ` set ns \<Longrightarrow> map_of (fold (offsetStep sel dn) ns acc) k = map_of acc k"
  by (induction ns arbitrary: acc) (auto simp: offsetStep_def map_of_map_set)

lemma offsets_recorded:
  assumes "distinct (map node_id ns)" and "n \<in> set ns" and "node_id n \<in> set sel"
  shows "map_of (fold (offsetStep sel dn) ns acc) (node_id n)
           = Some (node_x n - node_x dn, node_y n - node_y dn)"
  using assms
proof (induction ns arbitrary: acc)
  case Nil
  then show ?case by simp
next
  case (Cons a ns)
  show ?case
  proof (cases "n = a")
    case True
    have "node_id a \<notin> node_id ` set ns"
      using Cons.prems(1) by auto
    then have "map_of (fold (offsetStep sel dn) ns (offsetStep sel dn a acc)) (node_id a)
        = map_of (offsetStep sel dn a acc) (node_id a)"
      by (rule offsets_other_key)
    moreover have "map_of (offsetStep sel dn a acc) (node_id a)
        = Some (node_x a - node_x dn, node_y a - node_y dn)"
      using Cons.prems(3) True by (simp add: offsetStep_def map_of_map_set)
    ultimately show ?thesis
      using True by simp
  next
    case False
    then have "n \<in> set ns" using Cons.prems(2) by simp
    then show ?thesis
      using Cons.IH [of "offsetStep sel dn a acc"] Cons.prems by simp
  qed
qed

lemma offsetStep_fun:
  "offsetStep sel dn
     = (\<lambda>n offs. if node_id n \<in> set sel
                   then map_set (node_id n) (node_x n - node_x dn, node_y n - node_y dn) offs
                   else offs)"
  by (rule ext, rule ext) (simp add: offsetStep_def)

lemma handleDragStart_left:
  assumes "ev_button start \<noteq> 2" and "multiDrag d s"
  shows "fst (handleDragStart start d s) = d"
    and "selectedNodeIds (snd (handleDragStart start d s)) = selectedNodeIds s"
    and "mode (snd (handleDragStart start d s)) = mode s"
    and "\<not> isDraggingForEdge (snd (handleDragStart start d s))"
    and "dragOffsets (snd (handleDragStart start d s))
          = fold (offsetStep (selectedNodeIds s) (datum d (nodes s))) (nodes s) []"
    and "nodes (snd (handleDragStart start d s))
          = (if mode s = ''force''
             then map (\<lambda>n. if selectedNode s n then pin n else n) (nodes s)
             else nodes s)"
  using assms
  by (simp_all add: handleDragStart_def Let_def multiDrag_def offsetStep_fun selectedNode_def
      cong: if_cong)

lemma pin_fields [simp]:
  "node_id (pin n) = node_id n" "node_x (pin n) = node_x n" "node_y (pin n) = node_y n"
  by (simp_all add: pin_def)

lemma place_pinned_fields [simp]:
  "node_id (place_pinned p n) = node_id n"
  "node_x (place_pinned p n) = fst p" "node_y (place_pinned p n) = snd p"
  by (simp_all add: place_pinned_def)

lemma place_fields [simp]:
  "node_id (place p n) = node_id n" "node_x (place p n) = fst p" "node_y (place p n) = snd p"
  by (simp_all add: place_def)

lemma place_pinned_absorb [simp]:
  "place_pinned p (place_pinned q n) = place_pinned p n"
  "place_pinned p (pin n) = place_pinned p n"
  by (simp_all add: place_pinned_def pin_def)

lemma dragMoves_simps [simp]:
  "dragMoves [] r = r"
  "dragMoves (ev # evs) r = dragMoves evs (handleDrag ev (fst r) (snd r))"
  by (simp_all add: dragMoves_def)

text \<open>A multi-drag in progress on the node \<open>d\<close>.\<close>

lemma handleDrag_force_multi:
  assumes "mode s = ''force''" and "\<not> isDraggingForEdge s" and "multiDrag d s"
    and "dragOffsets s \<noteq> []"
  shows "handleDrag e d s
    = (d, s\<lparr>nodes := map (\<lambda>n. if selectedNode s n then place_pinned (dragTarget e s n) n else n)
                         (nodes s)\<rparr>)"
  using assms by (simp add: handleDrag_def selectedNode_def)

lemma handleDrag_manual_multi:
  assumes "mode s \<noteq> ''force''" and "\<not> isDraggingForEdge s" and "multiDrag d s"
    and "dragOffsets s \<noteq> []"
  shows "fst (handleDrag e d s) = d"
    and "nodes (snd (handleDrag e d s))
    = fold (\<lambda>i ns. applyRepulsionForce 0 1 (InArray i) ns)
        (filter (\<lambda>i. selectedNode s (nodes s ! i)) [0..<length (nodes s)])
        (map (\<lambda>n. if selectedNode s n then place (dragTarget e s n) n else n) (nodes s))"
  using assms by (simp_all add: handleDrag_def selectedNode_def Let_def)

lemma force_drag_events:
  assumes "mode s = ''force''" and "\<not> isDraggingForEdge s" and "multiDrag (InArray i) s"
    and "dragOffsets s \<noteq> []" and "i < length (nodes s)"
  shows "nodes (snd (dragMoves (evs @ [e]) (InArray i, s)))
    = map (\<lambda>n. if selectedNode s n then place_pinned (dragTarget e s n) n else n) (nodes s)"
  using assms
proof (induction evs arbitrary: s)
  case Nil
  then show ?case by (simp add: handleDrag_force_multi)
next
  case (Cons a evs)
  let ?s1 = "s\<lparr>nodes := map (\<lambda>n. if selectedNode s n
                                    then place_pinned (dragTarget a s n) n else n) (nodes s)\<rparr>"
  have s1: "handleDrag a (InArray i) s = (InArray i, ?s1)"
    using Cons.prems by (simp add: handleDrag_force_multi)
  have sel: "\<And>n. selectedNode ?s1 n = selectedNode s n"
    by (simp add: selectedNode_def)
  have tgt: "\<And>n. dragTarget e ?s1 n = dragTarget e s n"
    by (simp add: dragTarget_def)
  have multi: "multiDrag (InArray i) ?s1"
    using Cons.prems(3,5) by (simp add: multiDrag_def selectedNode_def)
  have inv: "mode ?s1 = ''force''" "\<not> isDraggingForEdge ?s1" "dragOffsets ?s1 \<noteq> []"
    "i < length (nodes ?s1)"
    using Cons.prems by simp_all
  have "nodes (snd (dragMoves (evs @ [e]) (InArray i, ?s1)))
      = map (\<lambda>n. if selectedNode ?s1 n then place_pinned (dragTarget e ?s1 n) n else n) (nodes ?s1)"
    using Cons.IH [OF inv(1) inv(2) multi inv(3) inv(4)] .
  also have "\<dots> = map (\<lambda>n. if selectedNode s n then place_pinned (dragTarget e s n) n else n) (nodes s)"
    unfolding sel tgt by (simp add: selectedNode_def dragTarget_def)
  finally show ?case by (simp add: s1)
qed

lemma applyRepulsionForce_clear:
  assumes "validDatum d ns" and "list_all (\<lambda>b. \<not> inRange (datum d ns) b) ns"
  shows "applyRepulsionForce depth m d ns = ns"
proof (cases "depth \<ge> maxRecursionDepth")
  case True
  then show ?thesis
    by (simp add: applyRepulsionForce_unfold [of depth m d ns])
next
  case False
  have same: "map (repelled m (datum d ns)) ns = ns"
    using assms(2) by (intro map_idI) (simp add: list_all_iff repelled_def)
  have none: "filter (\<lambda>i. pushedFurther m (datum d ns) (ns ! i)) [0..<length ns] = []"
    using assms(2) by (auto simp: filter_empty_conv list_all_iff pushedFurther_def)
  show ?thesis
    using False
    by (simp add: applyRepulsionForce_unfold [of depth m d ns] repelPass_eq [OF assms(1)] same none)
qed

lemma fold_unchanged:
  assumes "\<And>i. i \<in> set js \<Longrightarrow> f i ns = ns"
  shows "fold f js ns = ns"
  using assms by (induction js) simp_all

lemma offsets_after_start:
  assumes d: "i < length (nodes s)" and dist: "distinct (map node_id (nodes s))"
    and multi: "multiDrag (InArray i) s" and left: "ev_button start \<noteq> 2"
    and ex: "ev_x e = node_x (nodes s ! i) + dx" and ey: "ev_y e = node_y (nodes s ! i) + dy"
    and n: "n \<in> set (nodes s)" and sel: "selectedNode s n"
  shows "dragTarget e (snd (handleDragStart start (InArray i) s)) n = (node_x n + dx, node_y n + dy)"
proof -
  have "map_of (dragOffsets (snd (handleDragStart start (InArray i) s))) (node_id n)
      = Some (node_x n - node_x (nodes s ! i), node_y n - node_y (nodes s ! i))"
    using offsets_recorded [OF dist n] sel
    by (simp add: handleDragStart_left [OF left multi] selectedNode_def)
  then show ?thesis
    using ex ey by (simp add: dragTarget_def offset_of_def)
qed

lemma offsets_nonempty:
  assumes d: "i < length (nodes s)" and dist: "distinct (map node_id (nodes s))"
    and multi: "multiDrag (InArray i) s" and left: "ev_button start \<noteq> 2"
  shows "dragOffsets (snd (handleDragStart start (InArray i) s)) \<noteq> []"
proof -
  have "nodes s ! i \<in> set (nodes s)" using d by simp
  moreover have "node_id (nodes s ! i) \<in> set (selectedNodeIds s)"
    using multi by (simp add: multiDrag_def)
  ultimately have "map_of (dragOffsets (snd (handleDragStart start (InArray i) s)))
      (node_id (nodes s ! i)) \<noteq> None"
    using offsets_recorded [OF dist, of "nodes s ! i" "selectedNodeIds s" "nodes s ! i" "[]"]
    by (simp add: handleDragStart_left [OF left multi])
  then show ?thesis by auto
qed

lemma multiDrag_after_start:
  assumes d: "i < length (nodes s)" and multi: "multiDrag (InArray i) s"
    and left: "ev_button start \<noteq> 2"
  shows "multiDrag (InArray i) (snd (handleDragStart start (InArray i) s))"
  using d multi
  by (simp add: multiDrag_def handleDragStart_left [OF left multi] selectedNode_def)

text \<open>
  The two modes of a multi-select drag side by side. Let the grabbed node, an element of
  the node array, be selected together with at least one other node, the node ids be
  distinct, and the last move event be at the grabbed node's start position plus
  \<open>(dx, dy)\<close>. In force mode, after any number of move events, every selected node is at
  its start position plus \<open>(dx, dy)\<close> and pinned there, and the handlers have touched no
  other node. In manual mode the first move event places every selected node at its start
  position plus \<open>(dx, dy)\<close> and then runs the propagator from each selected node in turn,
  on the whole node array; the selected nodes stay where they were placed when after the
  placement no node lies within the repulsion distance of a selected node.
\<close>

lemma multi_drag_moves_selection:
  assumes d: "i < length (nodes s)" and dist: "distinct (map node_id (nodes s))"
    and multi: "multiDrag (InArray i) s" and left: "ev_button start \<noteq> 2"
    and ex: "ev_x e = node_x (nodes s ! i) + dx" and ey: "ev_y e = node_y (nodes s ! i) + dy"
  shows "(mode s = ''force'' \<longrightarrow>
            nodes (snd (dragMoves (evs @ [e]) (handleDragStart start (InArray i) s)))
              = translatedPinned dx dy s)
    \<and> (mode s \<noteq> ''force'' \<longrightarrow>
            nodes (snd (dragMoves [e] (handleDragStart start (InArray i) s)))
              = fold (\<lambda>j ns. applyRepulsionForce 0 1 (InArray j) ns)
                  (filter (\<lambda>j. selectedNode s (nodes s ! j)) [0..<length (nodes s)])
                  (translated dx dy s))
    \<and> (mode s \<noteq> ''force'' \<and> clearOfRepulsion s (translated dx dy s) \<longrightarrow>
            nodes (snd (dragMoves [e] (handleDragStart start (InArray i) s)))
              = translated dx dy s)"
proof -
  let ?s1 = "snd (handleDragStart start (InArray i) s)"
  note start = handleDragStart_left [OF left multi]
  have r1: "handleDragStart start (InArray i) s = (InArray i, ?s1)"
    using start(1) by (simp add: prod_eq_iff)
  have sel1: "\<And>n. selectedNode ?s1 n = selectedNode s n"
    by (simp add: selectedNode_def start)
  have multi1: "multiDrag (InArray i) ?s1"
    using multiDrag_after_start [OF d multi left] .
  have offs1: "dragOffsets ?s1 \<noteq> []"
    using offsets_nonempty [OF d dist multi left] .
  have edge1: "\<not> isDraggingForEdge ?s1"
    using start(4) .
  have tgt: "\<And>n. n \<in> set (nodes s) \<Longrightarrow> selectedNode s n \<Longrightarrow>
      dragTarget e ?s1 n = (node_x n + dx, node_y n + dy)"
    using offsets_after_start [OF d dist multi left ex ey] by blast
  have sel_pin: "\<And>n. selectedNode s (pin n) = selectedNode s n"
    by (simp add: selectedNode_def)
  have tgt_pin: "\<And>n. dragTarget e ?s1 (pin n) = dragTarget e ?s1 n"
    by (simp add: dragTarget_def)
  have force: "nodes (snd (dragMoves (evs @ [e]) (handleDragStart start (InArray i) s)))
      = translatedPinned dx dy s"
    if f: "mode s = ''force''"
  proof -
    have m1: "mode ?s1 = ''force''" using f by (simp add: start)
    have d1: "i < length (nodes ?s1)" using d f by (simp add: start)
    have "nodes (snd (dragMoves (evs @ [e]) (InArray i, ?s1)))
      = map (\<lambda>n. if selectedNode ?s1 n then place_pinned (dragTarget e ?s1 n) n else n) (nodes ?s1)"
      using force_drag_events [OF m1 edge1 multi1 offs1 d1] .
    also have "\<dots> = map (\<lambda>n. if selectedNode s n then place_pinned (dragTarget e ?s1 n) n else n)
                       (nodes s)"
      using f by (auto simp: start(6) sel1 sel_pin tgt_pin)
    also have "\<dots> = translatedPinned dx dy s"
      unfolding translatedPinned_def by (rule map_cong) (simp_all add: tgt)
    finally show ?thesis
      by (simp only: r1 [symmetric])
  qed
  have manual: "nodes (snd (dragMoves [e] (handleDragStart start (InArray i) s)))
      = fold (\<lambda>j ns. applyRepulsionForce 0 1 (InArray j) ns)
          (filter (\<lambda>j. selectedNode s (nodes s ! j)) [0..<length (nodes s)])
          (translated dx dy s)"
    if nf: "mode s \<noteq> ''force''"
  proof -
    have m1: "mode ?s1 \<noteq> ''force''" using nf by (simp add: start)
    have n1: "nodes ?s1 = nodes s" using nf by (simp add: start)
    have placed: "map (\<lambda>n. if selectedNode s n then place (dragTarget e ?s1 n) n else n) (nodes s)
        = translated dx dy s"
      unfolding translated_def by (rule map_cong) (simp_all add: tgt)
    have "nodes (snd (handleDrag e (InArray i) ?s1))
      = fold (\<lambda>j ns. applyRepulsionForce 0 1 (InArray j) ns)
          (filter (\<lambda>j. selectedNode s (nodes s ! j)) [0..<length (nodes s)])
          (translated dx dy s)"
      using handleDrag_manual_multi(2) [OF m1 edge1 multi1 offs1, of e]
      by (simp only: n1 sel1 placed)
    then show ?thesis
      by (simp add: start(1))
  qed
  have clear: "nodes (snd (dragMoves [e] (handleDragStart start (InArray i) s))) = translated dx dy s"
    if nf: "mode s \<noteq> ''force''" and c: "clearOfRepulsion s (translated dx dy s)"
  proof -
    let ?tr = "translated dx dy s"
    have len: "length ?tr = length (nodes s)" by (simp add: translated_def)
    have each: "applyRepulsionForce 0 1 (InArray j) ?tr = ?tr"
      if j: "j \<in> set (filter (\<lambda>j. selectedNode s (nodes s ! j)) [0..<length (nodes s)])" for j
    proof -
      have jl: "j < length (nodes s)" and jsel: "selectedNode s (nodes s ! j)"
        using j by simp_all
      have "selectedNode s (?tr ! j)"
        using jl jsel by (simp add: translated_def selectedNode_def)
      moreover have "?tr ! j \<in> set ?tr"
        using jl len by simp
      ultimately have "list_all (\<lambda>b. \<not> inRange (?tr ! j) b) ?tr"
        using c by (simp add: clearOfRepulsion_def list_all_iff)
      then show ?thesis
        using jl len by (intro applyRepulsionForce_clear) simp_all
    qed
    show ?thesis
      unfolding manual [OF nf] by (rule fold_unchanged) (rule each)
  qed
  show ?thesis
    using force manual clear by blast
qed

lemma leftDragEvent_fields [simp]:
  "ev_x (leftDragEvent px py) = px" "ev_y (leftDragEvent px py) = py"
  "ev_button (leftDragEvent px py) = 0" "\<not> ev_shiftKey (leftDragEvent px py)"
  by (simp_all add: leftDragEvent_def)

lemma farTrio_facts:
  "0 < length (nodes farTrioState)" "distinct (map node_id (nodes farTrioState))"
  "multiDrag (InArray 0) farTrioState" "mode farTrioState = ''force''"
  "0 < length (nodes farTrioManual)" "distinct (map node_id (nodes farTrioManual))"
  "multiDrag (InArray 0) farTrioManual" "mode farTrioManual \<noteq> ''force''"
  "node_x (nodes farTrioState ! 0) = 0" "node_y (nodes farTrioState ! 0) = 0"
  "node_x (nodes farTrioManual ! 0) = 0" "node_y (nodes farTrioManual ! 0) = 0"
  by (simp_all add: farTrioManual_def farTrioState_def initialState_def multiDrag_def)

lemma farTrio_translated:
  "translated 5 0 farTrioManual
     = [exampleNode ''node-1'' 5 0, exampleNode ''node-2'' 205 0, exampleNode ''node-3'' 500 0]"
  by (simp add: translated_def selectedNode_def farTrioManual_def farTrioState_def initialState_def)

lemma farTrio_clear: "clearOfRepulsion farTrioManual (translated 5 0 farTrioManual)"
  unfolding farTrio_translated
  by (simp add: clearOfRepulsion_def selectedNode_def farTrioManual_def farTrioState_def
      initialState_def inRange_on_axis repelDistance_def)

text \<open>
  For instance, three nodes at 0, 200 and 500, the first two selected and the first one
  dragged by \<open>(5, 0)\<close>: in force mode after two move events, and in manual mode after
  one, the nodes are at 5, 205 and 500.
\<close>

lemma multi_drag_moves_selection_example:
  "0 < length (nodes farTrioState) \<and> distinct (map node_id (nodes farTrioState))
   \<and> multiDrag (InArray 0) farTrioState \<and> mode farTrioState = ''force''
   \<and> multiDrag (InArray 0) farTrioManual \<and> mode farTrioManual \<noteq> ''force''
   \<and> clearOfRepulsion farTrioManual (translated 5 0 farTrioManual)
   \<and> nodes (snd (dragMoves [leftDragEvent 1 1, leftDragEvent 5 0]
              (handleDragStart (leftDragEvent 0 0) (InArray 0) farTrioState)))
       = translatedPinned 5 0 farTrioState
   \<and> map node_x (translatedPinned 5 0 farTrioState) = [5, 205, 500]
   \<and> nodes (snd (dragMoves [leftDragEvent 5 0]
              (handleDragStart (leftDragEvent 0 0) (InArray 0) farTrioManual)))
       = translated 5 0 farTrioManual
   \<and> map node_x (translated 5 0 farTrioManual) = [5, 205, 500]"
proof -
  have left: "ev_button (leftDragEvent 0 0) \<noteq> 2" by simp
  have ex: "ev_x (leftDragEvent 5 0) = node_x (nodes farTrioState ! 0) + 5"
    "ev_y (leftDragEvent 5 0) = node_y (nodes farTrioState ! 0) + 0"
    "ev_x (leftDragEvent 5 0) = node_x (nodes farTrioManual ! 0) + 5"
    "ev_y (leftDragEvent 5 0) = node_y (nodes farTrioManual ! 0) + 0"
    by (simp_all add: farTrio_facts)
  have pinned: "map node_x (translatedPinned 5 0 farTrioState) = [5, 205, 500]"
    by (simp add: translatedPinned_def selectedNode_def farTrioState_def initialState_def)
  have tr: "map node_x (translated 5 0 farTrioManual) = [5, 205, 500]"
    by (simp add: farTrio_translated)
  have force_inst: "nodes (snd (dragMoves ([leftDragEvent 1 1] @ [leftDragEvent 5 0])
              (handleDragStart (leftDragEvent 0 0) (InArray 0) farTrioState)))
       = translatedPinned 5 0 farTrioState"
    using multi_drag_moves_selection [OF farTrio_facts(1) farTrio_facts(2) farTrio_facts(3)
        left ex(1) ex(2), where evs = "[leftDragEvent 1 1]"] farTrio_facts(4)
    by blast
  then have force_inst': "nodes (snd (dragMoves [leftDragEvent 1 1, leftDragEvent 5 0]
              (handleDragStart (leftDragEvent 0 0) (InArray 0) farTrioState)))
       = translatedPinned 5 0 farTrioState"
    by (simp only: append_Cons append_Nil)
  have manual_inst: "nodes (snd (dragMoves [leftDragEvent 5 0]
                       (handleDragStart (leftDragEvent 0 0) (InArray 0) farTrioManual)))
       = translated 5 0 farTrioManual"
    using multi_drag_moves_selection [OF farTrio_facts(5) farTrio_facts(6) farTrio_facts(7)
        left ex(3) ex(4), where evs = "[]"] farTrio_facts(8) farTrio_clear
    by blast
  show ?thesis
    using force_inst' manual_inst farTrio_facts(1-4,7,8) farTrio_clear pinned tr
    by (intro conjI)
qed

lemma closePair_start:
  "fst (handleDragStart (leftDragEvent 0 0) (InArray 0) closePairState) = InArray 0"
  "nodes (snd (handleDragStart (leftDragEvent 0 0) (InArray 0) closePairState))
     = [exampleNode ''node-1'' 0 0, exampleNode ''node-2'' 78 0]"
  "dragOffsets (snd (handleDragStart (leftDragEvent 0 0) (InArray 0) closePairState))
     = [(''node-1'', 0, 0), (''node-2'', 78, 0)]"
  "selectedNodeIds (snd (handleDragStart (leftDragEvent 0 0) (InArray 0) closePairState))
     = [''node-1'', ''node-2'']"
  "mode (snd (handleDragStart (leftDragEvent 0 0) (InArray 0) closePairState)) = ''manual''"
  "\<not> isDraggingForEdge (snd (handleDragStart (leftDragEvent 0 0) (InArray 0) closePairState))"
  by (simp_all add: handleDragStart_def Let_def multiDrag_def closePairState_def initialState_def
      map_set_def)

lemma closePair_placed:
  "nodes (snd (dragMoves [leftDragEvent 10 0]
                 (handleDragStart (leftDragEvent 0 0) (InArray 0) closePairState)))
     = fold (\<lambda>i ns. applyRepulsionForce 0 1 (InArray i) ns) [0, 1]
         [exampleNode ''node-1'' 10 0, exampleNode ''node-2'' 88 0]"
proof -
  let ?s1 = "snd (handleDragStart (leftDragEvent 0 0) (InArray 0) closePairState)"
  have multi: "multiDrag (InArray 0) ?s1"
    by (simp add: multiDrag_def closePair_start)
  have "nodes (snd (handleDrag (leftDragEvent 10 0) (InArray 0) ?s1))
    = fold (\<lambda>i ns. applyRepulsionForce 0 1 (InArray i) ns)
        (filter (\<lambda>i. selectedNode ?s1 (nodes ?s1 ! i)) [0..<length (nodes ?s1)])
        (map (\<lambda>n. if selectedNode ?s1 n then place (dragTarget (leftDragEvent 10 0) ?s1 n) n else n)
           (nodes ?s1))"
    by (rule handleDrag_manual_multi) (simp_all add: closePair_start multi)
  then show ?thesis
    by (simp add: closePair_start selectedNode_def dragTarget_def offset_of_def upt_2)
qed

lemma closePair_first:
  "applyRepulsionForce 0 1 (InArray 0) [exampleNode ''node-1'' 10 0, exampleNode ''node-2'' 88 0]
     = [exampleNode ''node-1'' 10 0, exampleNode ''node-2'' (443 / 5) 0]"
proof -
  have "applyRepulsionForce 0 1 (InArray 0) [exampleNode ''node-1'' 10 0, exampleNode ''node-2'' 88 0]
      = map (repelled 1 (datum (InArray 0) [exampleNode ''node-1'' 10 0, exampleNode ''node-2'' 88 0]))
          [exampleNode ''node-1'' 10 0, exampleNode ''node-2'' 88 0]"
    by (rule applyRepulsionForce_no_push)
       (simp_all add: maxRecursionDepth_def upt_2 pushedFurther_def repelled_on_axis
          inRange_on_axis distance_axis repelDistance_def repelStrength_def)
  then show ?thesis
    by (simp add: repelled_on_axis repelDistance_def repelStrength_def)
qed

lemma closePair_second:
  "applyRepulsionForce 0 1 (InArray (Suc 0))
       [exampleNode ''node-1'' 10 0, exampleNode ''node-2'' (443 / 5) 0]
     = [exampleNode ''node-1'' (479 / 50) 0, exampleNode ''node-2'' (443 / 5) 0]"
proof -
  have "applyRepulsionForce 0 1 (InArray (Suc 0))
          [exampleNode ''node-1'' 10 0, exampleNode ''node-2'' (443 / 5) 0]
      = map (repelled 1 (datum (InArray (Suc 0))
               [exampleNode ''node-1'' 10 0, exampleNode ''node-2'' (443 / 5) 0]))
          [exampleNode ''node-1'' 10 0, exampleNode ''node-2'' (443 / 5) 0]"
    by (rule applyRepulsionForce_no_push)
       (simp_all add: maxRecursionDepth_def upt_2 pushedFurther_def repelled_on_axis
          inRange_on_axis distance_axis repelDistance_def repelStrength_def)
  then show ?thesis
    by (simp add: repelled_on_axis repelDistance_def repelStrength_def)
qed

lemma closePair_force:
  "map node_x (nodes (snd (dragMoves [leftDragEvent 10 0]
                 (handleDragStart (leftDragEvent 0 0) (InArray 0) closePairForce))))
     = [10, 88]"
proof -
  have start: "handleDragStart (leftDragEvent 0 0) (InArray 0) closePairForce
      = (InArray 0,
         closePairForce\<lparr>isDraggingNode := True, dragStartPosition := Some (0, 0),
           draggedNode := Some (InArray 0),
           dragOffsets := [(''node-1'', 0, 0), (''node-2'', 78, 0)],
           nodes := [pin (exampleNode ''node-1'' 0 0), pin (exampleNode ''node-2'' 78 0)]\<rparr>)"
    by (simp add: handleDragStart_def Let_def multiDrag_def closePairForce_def closePairState_def
        initialState_def map_set_def)
  show ?thesis
    unfolding start
    by (simp add: handleDrag_def multiDrag_def dragTarget_def offset_of_def closePairForce_def
        closePairState_def initialState_def)
qed

text \<open>
  Claim C9 at a concrete drag in manual mode: two selected nodes 78 pixels apart, the
  first one grabbed and dragged by \<open>(10, 0)\<close>. The move event places the two nodes at 10
  and 88 and then runs the propagator from each of them: the pass for the first pushes
  the second to 88.6, the pass for the second pushes the first to 9.58. Neither node has
  moved by \<open>(10, 0)\<close> and their offset is no longer 78. The same drag in force mode
  leaves the nodes at 10 and 88.
\<close>

theorem multi_drag_manual_pushes_selection:
  "mode closePairState = ''manual''
   \<and> multiDrag (InArray 0) closePairState
   \<and> map node_x (nodes closePairState) = [0, 78]
   \<and> map node_x (nodes (snd (dragMoves [leftDragEvent 10 0]
                          (handleDragStart (leftDragEvent 0 0) (InArray 0) closePairState))))
       = [479 / 50, 443 / 5]
   \<and> map node_x (nodes (snd (dragMoves [leftDragEvent 10 0]
                          (handleDragStart (leftDragEvent 0 0) (InArray 0) closePairState))))
       \<noteq> [0 + 10, 78 + 10]
   \<and> mode closePairForce = ''force''
   \<and> nodes closePairForce = nodes closePairState
   \<and> selectedNodeIds closePairForce = selectedNodeIds closePairState
   \<and> map node_x (nodes (snd (dragMoves [leftDragEvent 10 0]
                          (handleDragStart (leftDragEvent 0 0) (InArray 0) closePairForce))))
       = [0 + 10, 78 + 10]"
proof -
  have st: "mode closePairState = ''manual''" "multiDrag (InArray 0) closePairState"
      "map node_x (nodes closePairState) = [0, 78]"
    by (simp_all add: closePairState_def initialState_def multiDrag_def)
  have manual: "map node_x (nodes (snd (dragMoves [leftDragEvent 10 0]
                          (handleDragStart (leftDragEvent 0 0) (InArray 0) closePairState))))
       = [479 / 50, 443 / 5]"
    unfolding closePair_placed by (simp add: closePair_first closePair_second)
  have differs: "map node_x (nodes (snd (dragMoves [leftDragEvent 10 0]
                          (handleDragStart (leftDragEvent 0 0) (InArray 0) closePairState))))
       \<noteq> [0 + 10, 78 + 10]"
    unfolding manual by simp
  have sibling: "mode closePairForce = ''force''" "nodes closePairForce = nodes closePairState"
      "selectedNodeIds closePairForce = selectedNodeIds closePairState"
    by (simp_all add: closePairForce_def)
  have force: "map node_x (nodes (snd (dragMoves [leftDragEvent 10 0]
                          (handleDragStart (leftDragEvent 0 0) (InArray 0) closePairForce))))
       = [0 + 10, 78 + 10]"
    using closePair_force by simp
  show ?thesis
    using st manual differs sibling force by (intro conjI)
qed
section \<open>Click or drag\<close>

lemma updatePopover_keeps [simp]:
  "nodes (updatePopover s) = nodes s"
  "selectedNodeIds (updatePopover s) = selectedNodeIds s"
  "selectedEdgeIds (updatePopover s) = selectedEdgeIds s"
  "mode (updatePopover s) = mode s"
  by (simp_all add: updatePopover_def hidePopover_def split: option.split)

lemma clearSelection_keeps [simp]:
  "nodes (clearSelection s) = nodes s"
  "selectedNodeIds (clearSelection s) = []"
  "selectedEdgeIds (clearSelection s) = []"
  by (simp_all add: clearSelection_def hidePopover_def)

lemma selectNode_keeps [simp]:
  "nodes (selectNode n shift s) = nodes s"
  "mode (selectNode n shift s) = mode s"
  "selectedNodeIds (selectNode n shift s)
     = (if shift
        then (if node_id n \<in> set (selectedNodeIds s)
              then set_delete (node_id n) (selectedNodeIds s)
              else set_add (node_id n) (selectedNodeIds s))
        else [node_id n])"
  by (simp_all add: selectNode_def)

lemma inSelectionBox_isSelecting [simp]:
  "inSelectionBox (s\<lparr>isSelecting := b\<rparr>) = inSelectionBox s"
  by (rule ext, rule ext) (simp add: inSelectionBox_def)





lemma unpin_fields [simp]:
  "node_id (unpin n) = node_id n" "node_x (unpin n) = node_x n" "node_y (unpin n) = node_y n"
  by (simp_all add: unpin_def)












lemma multiDrag_press [simp]: "multiDrag d (s\<lparr>dragStartPosition := q\<rparr>) = multiDrag d s"
  by (simp add: multiDrag_def)

lemma dragTarget_press [simp]: "dragTarget ev (s\<lparr>dragStartPosition := q\<rparr>) = dragTarget ev s"
  by (rule ext) (simp add: dragTarget_def)





lemma rightDragEvent_fields [simp]:
  "ev_x (rightDragEvent px py t) = px" "ev_y (rightDragEvent px py t) = py"
  "ev_button (rightDragEvent px py t) = 2" "ev_target (rightDragEvent px py t) = t"
  "ev_pointer (rightDragEvent px py t) = (px, py)"
  by (simp_all add: rightDragEvent_def)












end
